theory Spec2Isabelle
  imports Complex_Main
begin

section \<open>Dynamic movement primitives: learning and planning\<close>

text \<open>
  A shallow embedding of \<^verbatim>\<open>src/dmp.cpp\<close> (learnFromDemo, the obstacle coupling with its
  geometry helpers, generatePlan) and of planCallback in \<^verbatim>\<open>nodes/dmp_server.cpp\<close>.

  Numbers. The functions are written over a type \<open>'d\<close> of doubles of which only the syntax
  of the operations is known: \<open>+\<close>, \<open>-\<close>, \<open>*\<close>, \<open>/\<close>, \<open><\<close>, \<open>\<le>\<close>, \<open>\<bar>x\<bar>\<close> and \<open>0\<close>. The functions of
  \<^verbatim>\<open>cmath\<close> and the conversion of literals and integers are the fields of a record \<open>libm\<close>
  that every function takes. What is proved of the functions for every \<open>'d\<close> holds of the
  program whatever its arithmetic does. Two arithmetics are given: \<open>real\<close>, where every
  operation is exact, and \<open>double\<close>, with the rounding, the overflow, the infinities and
  the NaN of IEEE 754 binary64.

  Comparisons are written as in the source: \<open>a > b\<close> is \<open>b < a\<close> and \<open>a \<ge> b\<close> is \<open>b \<le> a\<close>.

  Memory. Every read \<^verbatim>\<open>v[i]\<close> of a \<^verbatim>\<open>std::vector\<close> goes through \<open>get_at\<close>, which yields the
  fault \<open>OutOfBounds\<close> where the C++ read would be past the end.

  The Fourier approximator (\<^verbatim>\<open>FourierApprox\<close>) is not part of the two files modelled
  here; its two operations are parameters of the functions that use them.
\<close>

subsection \<open>Faults and checked reads\<close>

datatype error = EmptyTrajectory | OutOfBounds | NotANumber | EmptyMatrix | Uninitialised

definition get_at :: "'a list \<Rightarrow> nat \<Rightarrow> error + 'a" where
  "get_at xs i = (if i < length xs then Inr (xs ! i) else Inl OutOfBounds)"

definition bindE :: "error + 'a \<Rightarrow> ('a \<Rightarrow> error + 'b) \<Rightarrow> error + 'b" where
  "bindE m f = (case m of Inl e \<Rightarrow> Inl e | Inr x \<Rightarrow> f x)"

text \<open>\<^verbatim>\<open>for (int i = a; i < b; i++) body\<close> over a state, stopping at the first fault:
  \<open>for_loop [a..<b] body\<close>.\<close>

fun for_loop :: "nat list \<Rightarrow> (nat \<Rightarrow> 's \<Rightarrow> error + 's) \<Rightarrow> 's \<Rightarrow> error + 's" where
  "for_loop [] body s = Inr s"
| "for_loop (i # is) body s = bindE (body i s) (for_loop is body)"

subsection \<open>The mathematical library\<close>

text \<open>\<open>lit r\<close> is the double that a literal or an integer of value \<open>r\<close> converts to; the
  other fields are \<^verbatim>\<open>exp\<close>, \<^verbatim>\<open>log\<close>, \<^verbatim>\<open>sqrt\<close>, \<^verbatim>\<open>sin\<close>, \<^verbatim>\<open>cos\<close> and \<^verbatim>\<open>acos\<close>.\<close>

record 'd libm =
  lit :: "real \<Rightarrow> 'd"
  fexp :: "'d \<Rightarrow> 'd"
  flog :: "'d \<Rightarrow> 'd"
  fsqrt :: "'d \<Rightarrow> 'd"
  fsin :: "'d \<Rightarrow> 'd"
  fcos :: "'d \<Rightarrow> 'd"
  facos :: "'d \<Rightarrow> 'd"

text \<open>\<^verbatim>\<open>std::min(a, b)\<close> is \<^verbatim>\<open>(b < a) ? b : a\<close> and \<^verbatim>\<open>std::max(a, b)\<close> is \<^verbatim>\<open>(a < b) ? b : a\<close>.\<close>

definition std_min :: "'d::ord \<Rightarrow> 'd \<Rightarrow> 'd" where
  "std_min a b = (if b < a then b else a)"

definition std_max :: "'d::ord \<Rightarrow> 'd \<Rightarrow> 'd" where
  "std_max a b = (if a < b then b else a)"

subsection \<open>Messages\<close>

record 'd DMPPoint =
  positions :: "'d list"
  velocities :: "'d list"

record 'd DMPTraj =
  points :: "'d DMPPoint list"
  times :: "'d list"

record 'd DMPData =
  k_gain :: 'd
  d_gain :: 'd
  weights :: "'d list"
  f_domain :: "'d list"
  f_targets :: "'d list"

subsection \<open>The canonical system\<close>

definition alpha :: "'d::uminus libm \<Rightarrow> 'd" where
  "alpha lm = - flog lm (lit lm (1 / 100))"

definition calcPhase :: "'d::{uminus,times,inverse} libm \<Rightarrow> 'd \<Rightarrow> 'd \<Rightarrow> 'd" where
  "calcPhase lm curr_time tau' = fexp lm (- (alpha lm / tau') * curr_time)"

subsection \<open>learnFromDemo\<close>

text \<open>The scratch arrays \<^verbatim>\<open>x_demo\<close>, \<^verbatim>\<open>v_demo\<close>, \<^verbatim>\<open>v_dot_demo\<close>, \<^verbatim>\<open>f_domain\<close>, \<^verbatim>\<open>f_targets\<close> are
  written in index order before they are read, within each dimension; they are lists that
  grow by one entry per iteration, so that entry \<open>i - 1\<close> is the entry written last.\<close>

definition demo_init ::
  "'d::zero DMPTraj \<Rightarrow> nat \<Rightarrow> error + 'd list \<times> 'd list \<times> 'd list" where
  "demo_init demo d =
     bindE (get_at (points demo) 0) (\<lambda>p0.
     bindE (get_at (positions p0) d) (\<lambda>x0.
       Inr ([x0], [0], [0])))"

definition demo_diff ::
  "'d::{minus,inverse} DMPTraj \<Rightarrow> nat \<Rightarrow> nat \<Rightarrow> 'd list \<times> 'd list \<times> 'd list \<Rightarrow>
   error + 'd list \<times> 'd list \<times> 'd list" where
  "demo_diff demo d i arrs =
     (case arrs of (x_demo, v_demo, v_dot_demo) \<Rightarrow>
        bindE (get_at (points demo) i) (\<lambda>p.
        bindE (get_at (positions p) d) (\<lambda>xi.
        bindE (get_at x_demo (i - 1)) (\<lambda>xp.
        bindE (get_at (times demo) i) (\<lambda>ti.
        bindE (get_at (times demo) (i - 1)) (\<lambda>tp.
        bindE (get_at v_demo (i - 1)) (\<lambda>vp.
          let dx = xi - xp;
              dt = ti - tp;
              vi = dx / dt
          in Inr (x_demo @ [xi], v_demo @ [vi], v_dot_demo @ [(vi - vp) / dt]))))))))"

definition demo_target ::
  "'d::{plus,minus,uminus,times,inverse} libm \<Rightarrow> 'd DMPTraj \<Rightarrow> 'd \<Rightarrow> 'd \<Rightarrow> 'd \<Rightarrow> 'd \<Rightarrow> 'd \<Rightarrow>
   'd list \<times> 'd list \<times> 'd list \<Rightarrow> nat \<Rightarrow> 'd list \<times> 'd list \<Rightarrow> error + 'd list \<times> 'd list" where
  "demo_target lm demo tau' curr_k curr_d x_0' goal' arrs i ft =
     (case arrs of (x_demo, v_demo, v_dot_demo) \<Rightarrow>
      case ft of (f_dom, f_tgt) \<Rightarrow>
        bindE (get_at (times demo) i) (\<lambda>ti.
        bindE (get_at v_dot_demo i) (\<lambda>vdi.
        bindE (get_at v_demo i) (\<lambda>vi.
        bindE (get_at x_demo i) (\<lambda>xi.
          let phase = calcPhase lm ti tau';
              tgt = ((tau' * tau' * vdi + curr_d * tau' * vi) / curr_k) - (goal' - xi)
                    + ((goal' - x_0') * phase)
          in Inr (f_dom @ [ti / tau'], f_tgt @ [tgt / phase]))))))"

definition learn_dim ::
  "'d::{zero,plus,minus,uminus,times,inverse} libm \<Rightarrow> (int \<Rightarrow> 'd list \<Rightarrow> 'd list \<Rightarrow> 'd list) \<Rightarrow>
   'd DMPTraj \<Rightarrow> 'd list \<Rightarrow> 'd list \<Rightarrow> int \<Rightarrow> nat \<Rightarrow> 'd \<Rightarrow> nat \<Rightarrow> 'd DMPData list \<Rightarrow>
   error + 'd DMPData list" where
  "learn_dim lm leastSquaresWeights demo k_gains d_gains num_bases n_pts tau' d dmp_list =
     bindE (get_at k_gains d) (\<lambda>curr_k.
     bindE (get_at d_gains d) (\<lambda>curr_d.
     bindE (get_at (points demo) 0) (\<lambda>p0.
     bindE (get_at (positions p0) d) (\<lambda>x_0'.
     bindE (get_at (points demo) (n_pts - 1)) (\<lambda>pn.
     bindE (get_at (positions pn) d) (\<lambda>goal'.
     bindE (demo_init demo d) (\<lambda>arrs0.
     bindE (for_loop [1..<n_pts] (demo_diff demo d) arrs0) (\<lambda>arrs.
     bindE (for_loop [0..<n_pts] (demo_target lm demo tau' curr_k curr_d x_0' goal' arrs) ([], []))
       (\<lambda>ft. case ft of (f_dom, f_tgt) \<Rightarrow>
          Inr (dmp_list @
            [\<lparr>k_gain = curr_k, d_gain = curr_d,
              weights = leastSquaresWeights num_bases f_dom f_tgt,
              f_domain = f_dom, f_targets = f_tgt\<rparr>]))))))))))"

text \<open>The result is the output parameter \<^verbatim>\<open>dmp_list\<close>, which the lfdCallback passes in
  empty. \<open>Inl EmptyTrajectory\<close> is the early return after \<^verbatim>\<open>ROS_ERROR\<close>, which leaves
  \<^verbatim>\<open>dmp_list\<close> as it was.\<close>

definition learnFromDemo ::
  "'d::{zero,plus,minus,uminus,times,inverse} libm \<Rightarrow> (int \<Rightarrow> 'd list \<Rightarrow> 'd list \<Rightarrow> 'd list) \<Rightarrow>
   'd DMPTraj \<Rightarrow> 'd list \<Rightarrow> 'd list \<Rightarrow> int \<Rightarrow> error + 'd DMPData list" where
  "learnFromDemo lm leastSquaresWeights demo k_gains d_gains num_bases =
     (let n_pts = length (points demo) in
      if n_pts < 1 then Inl EmptyTrajectory
      else
        bindE (get_at (points demo) 0) (\<lambda>p0.
          let dims = length (positions p0) in
          bindE (get_at (times demo) (n_pts - 1)) (\<lambda>tau'.
            for_loop [0..<dims]
              (learn_dim lm leastSquaresWeights demo k_gains d_gains num_bases n_pts tau') [])))"

text \<open>The quantities of the specification, as closed forms of the sample index, in the
  arithmetic of the program.\<close>

definition demo_x :: "'d DMPTraj \<Rightarrow> nat \<Rightarrow> nat \<Rightarrow> 'd" where
  "demo_x demo d i = positions (points demo ! i) ! d"

definition demo_v :: "'d::{zero,minus,inverse} DMPTraj \<Rightarrow> nat \<Rightarrow> nat \<Rightarrow> 'd" where
  "demo_v demo d i =
     (if i = 0 then 0
      else (demo_x demo d i - demo_x demo d (i - 1)) / (times demo ! i - times demo ! (i - 1)))"

definition demo_v_dot :: "'d::{zero,minus,inverse} DMPTraj \<Rightarrow> nat \<Rightarrow> nat \<Rightarrow> 'd" where
  "demo_v_dot demo d i =
     (if i = 0 then 0
      else (demo_v demo d i - demo_v demo d (i - 1)) / (times demo ! i - times demo ! (i - 1)))"

definition target_spec ::
  "'d::{zero,plus,minus,uminus,times,inverse} libm \<Rightarrow> 'd DMPTraj \<Rightarrow> 'd list \<Rightarrow> 'd list \<Rightarrow>
   nat \<Rightarrow> nat \<Rightarrow> 'd" where
  "target_spec lm demo k_gains d_gains d i =
     (let tau' = last (times demo);
          x_0' = demo_x demo d 0;
          goal' = demo_x demo d (length (points demo) - 1)
      in ((tau' * tau' * demo_v_dot demo d i + d_gains ! d * tau' * demo_v demo d i) / k_gains ! d
           - (goal' - demo_x demo d i) + (goal' - x_0') * calcPhase lm (times demo ! i) tau')
         / calcPhase lm (times demo ! i) tau')"

definition wf_demo :: "'d DMPTraj \<Rightarrow> 'd list \<Rightarrow> 'd list \<Rightarrow> bool" where
  "wf_demo demo k_gains d_gains =
     (points demo \<noteq> [] \<and> length (times demo) = length (points demo) \<and>
      list_all (\<lambda>p. length (positions (hd (points demo))) \<le> length (positions p))
        (points demo) \<and>
      length (positions (hd (points demo))) \<le> length k_gains \<and>
      length (positions (hd (points demo))) \<le> length d_gains)"

subsection \<open>Three-dimensional vectors and matrices (Eigen)\<close>

text \<open>\<^verbatim>\<open>Eigen::Vector3d\<close> is a triple, \<^verbatim>\<open>Eigen::Matrix3d\<close> a triple of rows and an
  \<^verbatim>\<open>Eigen::MatrixXd\<close> with three columns a list of rows. The operations follow Eigen 3:
  \<^verbatim>\<open>normalized()\<close> returns a vector whose squared norm is not above zero unchanged, and
  \<^verbatim>\<open>AngleAxisd(r, axis).toRotationMatrix()\<close> is Rodrigues' formula.\<close>

definition vsub :: "'d::minus \<times> 'd \<times> 'd \<Rightarrow> 'd \<times> 'd \<times> 'd \<Rightarrow> 'd \<times> 'd \<times> 'd" where
  "vsub a b = (case a of (a1, a2, a3) \<Rightarrow> case b of (b1, b2, b3) \<Rightarrow> (a1 - b1, a2 - b2, a3 - b3))"

definition vadd :: "'d::plus \<times> 'd \<times> 'd \<Rightarrow> 'd \<times> 'd \<times> 'd \<Rightarrow> 'd \<times> 'd \<times> 'd" where
  "vadd a b = (case a of (a1, a2, a3) \<Rightarrow> case b of (b1, b2, b3) \<Rightarrow> (a1 + b1, a2 + b2, a3 + b3))"

definition vscale :: "'d::times \<times> 'd \<times> 'd \<Rightarrow> 'd \<Rightarrow> 'd \<times> 'd \<times> 'd" where
  "vscale a c = (case a of (a1, a2, a3) \<Rightarrow> (a1 * c, a2 * c, a3 * c))"

definition vdiv :: "'d::inverse \<times> 'd \<times> 'd \<Rightarrow> 'd \<Rightarrow> 'd \<times> 'd \<times> 'd" where
  "vdiv a c = (case a of (a1, a2, a3) \<Rightarrow> (a1 / c, a2 / c, a3 / c))"

definition vmul :: "'d::times \<times> 'd \<times> 'd \<Rightarrow> 'd \<times> 'd \<times> 'd \<Rightarrow> 'd \<times> 'd \<times> 'd" where
  "vmul a b = (case a of (a1, a2, a3) \<Rightarrow> case b of (b1, b2, b3) \<Rightarrow> (a1 * b1, a2 * b2, a3 * b3))"

definition dot :: "'d::{plus,times} \<times> 'd \<times> 'd \<Rightarrow> 'd \<times> 'd \<times> 'd \<Rightarrow> 'd" where
  "dot a b = (case a of (a1, a2, a3) \<Rightarrow> case b of (b1, b2, b3) \<Rightarrow> a1 * b1 + a2 * b2 + a3 * b3)"

definition cross :: "'d::{minus,times} \<times> 'd \<times> 'd \<Rightarrow> 'd \<times> 'd \<times> 'd \<Rightarrow> 'd \<times> 'd \<times> 'd" where
  "cross a b = (case a of (a1, a2, a3) \<Rightarrow> case b of (b1, b2, b3) \<Rightarrow>
     (a2 * b3 - a3 * b2, a3 * b1 - a1 * b3, a1 * b2 - a2 * b1))"

definition norm3 :: "'d::{plus,times} libm \<Rightarrow> 'd \<times> 'd \<times> 'd \<Rightarrow> 'd" where
  "norm3 lm a = fsqrt lm (dot a a)"

definition normalized ::
  "'d::{zero,plus,times,inverse,ord} libm \<Rightarrow> 'd \<times> 'd \<times> 'd \<Rightarrow> 'd \<times> 'd \<times> 'd" where
  "normalized lm a = (let z = dot a a in if z > 0 then vdiv a (fsqrt lm z) else a)"

definition toRotationMatrix ::
  "'d::{plus,minus,times} libm \<Rightarrow> 'd \<Rightarrow> 'd \<times> 'd \<times> 'd \<Rightarrow>
   ('d \<times> 'd \<times> 'd) \<times> ('d \<times> 'd \<times> 'd) \<times> ('d \<times> 'd \<times> 'd)" where
  "toRotationMatrix lm angle axis =
     (case axis of (ax, ay, az) \<Rightarrow>
        let s = fsin lm angle; c = fcos lm angle;
            cx = (lit lm 1 - c) * ax; cy = (lit lm 1 - c) * ay; cz = (lit lm 1 - c) * az
        in ((cx * ax + c, cx * ay - s * az, cx * az + s * ay),
            (cx * ay + s * az, cy * ay + c, cy * az - s * ax),
            (cx * az - s * ay, cy * az + s * ax, cz * az + c)))"

text \<open>\<open>mscale c M\<close> is the product \<^verbatim>\<open>c * M\<close> of a scalar and a matrix, \<open>vscale a c\<close> the product
  \<^verbatim>\<open>a * c\<close> of a vector and a scalar.\<close>

definition mscale ::
  "'d::times \<Rightarrow> ('d \<times> 'd \<times> 'd) \<times> ('d \<times> 'd \<times> 'd) \<times> ('d \<times> 'd \<times> 'd) \<Rightarrow>
   ('d \<times> 'd \<times> 'd) \<times> ('d \<times> 'd \<times> 'd) \<times> ('d \<times> 'd \<times> 'd)" where
  "mscale c M =
     (case M of (r1, r2, r3) \<Rightarrow>
        case r1 of (a1, a2, a3) \<Rightarrow> case r2 of (b1, b2, b3) \<Rightarrow> case r3 of (c1, c2, c3) \<Rightarrow>
          ((c * a1, c * a2, c * a3), (c * b1, c * b2, c * b3), (c * c1, c * c2, c * c3)))"

definition mat_vec ::
  "('d::{plus,times} \<times> 'd \<times> 'd) \<times> ('d \<times> 'd \<times> 'd) \<times> ('d \<times> 'd \<times> 'd) \<Rightarrow> 'd \<times> 'd \<times> 'd \<Rightarrow>
   'd \<times> 'd \<times> 'd" where
  "mat_vec M a = (case M of (r1, r2, r3) \<Rightarrow> (dot r1 a, dot r2 a, dot r3 a))"

definition epsilon :: "'d libm \<Rightarrow> 'd" where
  "epsilon lm = lit lm (1 / 10 ^ 10)"

text \<open>Reading three consecutive coefficients \<^verbatim>\<open>v[0], v[1], v[2]\<close> of a \<^verbatim>\<open>std::vector\<close>.\<close>

definition vec3_of :: "'d list \<Rightarrow> error + 'd \<times> 'd \<times> 'd" where
  "vec3_of xs =
     bindE (get_at xs 0) (\<lambda>a.
     bindE (get_at xs 1) (\<lambda>b.
     bindE (get_at xs 2) (\<lambda>c. Inr (a, b, c))))"

subsection \<open>Geometry helpers\<close>

text \<open>The vectors \<^verbatim>\<open>min_values\<close> and \<^verbatim>\<open>max_values\<close> are copies of \<^verbatim>\<open>points[0]\<close> and keep
  its length. On an empty input \<^verbatim>\<open>calculate_bounding_box_dimensions\<close> prints
  \<^verbatim>\<open>Error: Empty input points vector.\<close> and returns a default-constructed
  \<^verbatim>\<open>Eigen::Vector3d\<close>: \<open>BBoxEmpty\<close>. Eigen 3 leaves the coefficients of such a vector
  uninitialised unless it is built with \<^verbatim>\<open>EIGEN_INITIALIZE_MATRICES_BY_ZERO\<close>, so the model
  gives them no value.\<close>

datatype 'd bbox = BBox "'d \<times> 'd \<times> 'd" | BBoxEmpty

definition bbox_point ::
  "'d::ord list \<Rightarrow> nat \<Rightarrow> 'd list \<times> 'd list \<Rightarrow> error + 'd list \<times> 'd list" where
  "bbox_point point i mm =
     (case mm of (min_values, max_values) \<Rightarrow>
        bindE (get_at min_values i) (\<lambda>lo.
        bindE (get_at point i) (\<lambda>c.
        bindE (get_at max_values i) (\<lambda>hi.
          Inr (min_values[i := std_min lo c], max_values[i := std_max hi c])))))"

definition bbox_points ::
  "'d::ord list list \<Rightarrow> nat \<Rightarrow> 'd list \<times> 'd list \<Rightarrow> error + 'd list \<times> 'd list" where
  "bbox_points pts j mm =
     bindE (get_at pts j) (\<lambda>point. for_loop [0..<length point] (bbox_point point) mm)"

definition calculate_bounding_box_dimensions ::
  "'d::{minus,ord} list list \<Rightarrow> error + 'd bbox" where
  "calculate_bounding_box_dimensions pts =
     (if pts = [] \<or> hd pts = [] then Inr BBoxEmpty
      else
        bindE (get_at pts 0) (\<lambda>p0.
        bindE (for_loop [0..<length pts] (bbox_points pts) (p0, p0)) (\<lambda>mm.
          case mm of (min_values, max_values) \<Rightarrow>
            let dimensions = map (\<lambda>i. max_values ! i - min_values ! i) [0..<length min_values]
            in bindE (vec3_of dimensions) (\<lambda>dims3. Inr (BBox dims3)))))"

definition verticesVectorToEigen :: "'d list list \<Rightarrow> error + ('d \<times> 'd \<times> 'd) list" where
  "verticesVectorToEigen vertices =
     for_loop [0..<length vertices]
       (\<lambda>i rows. bindE (get_at vertices i) (\<lambda>vx. bindE (vec3_of vx) (\<lambda>r. Inr (rows @ [r])))) []"

text \<open>\<^verbatim>\<open>centroid /= points.rows()\<close> divides the zero vector by zero when the matrix has
  no row: every coefficient of the result is NaN.\<close>

definition calculateCentroid ::
  "'d::{zero,plus,inverse} libm \<Rightarrow> ('d \<times> 'd \<times> 'd) list \<Rightarrow> error + 'd \<times> 'd \<times> 'd" where
  "calculateCentroid lm rows =
     (let centroid = foldl vadd (0, 0, 0) rows
      in if length rows = 0 then Inl NotANumber
         else Inr (vdiv centroid (lit lm (real (length rows)))))"

text \<open>\<^verbatim>\<open>minCoeff(&index)\<close> visits the coefficients in order and keeps the first least one;
  on a vector without coefficients Eigen's assertion fails (and without assertions row 0 of
  a matrix without rows is read): \<open>EmptyMatrix\<close>.\<close>

fun minCoeff :: "'d::ord list \<Rightarrow> nat \<Rightarrow> 'd \<times> nat \<Rightarrow> 'd \<times> nat" where
  "minCoeff [] i res = res"
| "minCoeff (c # cs) i res = minCoeff cs (Suc i) (if c < fst res then (c, i) else res)"

definition nearestObjectPoint ::
  "'d::{plus,minus,times,ord} libm \<Rightarrow> ('d \<times> 'd \<times> 'd) list \<Rightarrow> 'd \<times> 'd \<times> 'd \<Rightarrow>
   error + 'd \<times> 'd \<times> 'd" where
  "nearestObjectPoint lm vertices_matrix path_point =
     (let distances = map (\<lambda>r. norm3 lm (vsub r path_point)) vertices_matrix
      in case distances of
           [] \<Rightarrow> Inl EmptyMatrix
         | c # cs \<Rightarrow> get_at vertices_matrix (snd (minCoeff cs 1 (c, 0))))"

subsection \<open>artificialPotentialFieldCoupling\<close>

text \<open>The function appends three coefficients to its output parameter \<^verbatim>\<open>apf_ct\<close> and may
  replace the vectors \<^verbatim>\<open>beta\<close>, \<^verbatim>\<open>gamma\<close> and \<^verbatim>\<open>k\<close>, which it takes by reference: the result
  is the new \<^verbatim>\<open>apf_ct\<close> with the three coefficient vectors as the function leaves them.
  The rotation \<^verbatim>\<open>R_p\<close> about the nearest point is computed by the source and never used; it
  is left out. \<open>coupling_term\<close> is the product
  \<^verbatim>\<open>gamma * R * v_e * theta * exp(-beta * theta) * exp(-k * norm)\<close>, from left to right.\<close>

definition coupling_term ::
  "'d::{plus,uminus,times} libm \<Rightarrow> 'd \<Rightarrow>
   ('d \<times> 'd \<times> 'd) \<times> ('d \<times> 'd \<times> 'd) \<times> ('d \<times> 'd \<times> 'd) \<Rightarrow> 'd \<times> 'd \<times> 'd \<Rightarrow>
   'd \<Rightarrow> 'd \<Rightarrow> 'd \<Rightarrow> 'd \<Rightarrow> 'd \<times> 'd \<times> 'd" where
  "coupling_term lm g R v_e theta b kd len =
     vscale (vscale (vscale (mat_vec (mscale g R) v_e) theta) (fexp lm (- b * theta)))
       (fexp lm (- kd * len))"

definition angle_to ::
  "'d::{plus,times,inverse} libm \<Rightarrow> 'd \<times> 'd \<times> 'd \<Rightarrow> 'd \<times> 'd \<times> 'd \<Rightarrow> 'd" where
  "angle_to lm o_diff v_e =
     facos lm (dot o_diff v_e / (norm3 lm o_diff * norm3 lm v_e + epsilon lm))"

definition rotation_about ::
  "'d::{zero,plus,minus,times,inverse,ord} libm \<Rightarrow> 'd \<times> 'd \<times> 'd \<Rightarrow> 'd \<times> 'd \<times> 'd \<Rightarrow>
   ('d \<times> 'd \<times> 'd) \<times> ('d \<times> 'd \<times> 'd) \<times> ('d \<times> 'd \<times> 'd)" where
  "rotation_about lm o_diff v_e =
     (let r = lit lm (1 / 2) * lit lm pi * norm3 lm (cross o_diff v_e)
      in toRotationMatrix lm r (normalized lm (cross o_diff v_e)))"

definition pad_beta :: "'d::zero list \<Rightarrow> error + 'd list" where
  "pad_beta beta' = (if length beta' < 2 then bindE (get_at beta' 0) (\<lambda>b0. Inr [b0, 0]) else Inr beta')"

definition pad3 :: "'d::zero list \<Rightarrow> error + 'd list" where
  "pad3 c = (if length c < 3 then bindE (get_at c 0) (\<lambda>c0. Inr [c0, 0, 0]) else Inr c)"

definition artificialPotentialFieldCoupling ::
  "'d::{zero,plus,minus,uminus,times,inverse,ord} libm \<Rightarrow> 'd list \<Rightarrow> 'd list \<Rightarrow> 'd list \<Rightarrow>
   'd list list \<Rightarrow> 'd list \<Rightarrow> 'd list \<Rightarrow> 'd list \<Rightarrow> 'd \<Rightarrow> 'd \<Rightarrow>
   error + 'd list \<times> 'd list \<times> 'd list \<times> 'd list" where
  "artificialPotentialFieldCoupling lm apf_ct x v ob beta' gamma' k' m' n' =
     bindE (vec3_of x) (\<lambda>x_e.
     bindE (vec3_of v) (\<lambda>v_e.
       if length ob = 1 then
         bindE (get_at ob 0) (\<lambda>o0.
         bindE (vec3_of o0) (\<lambda>o_e.
           let o_diff = vsub o_e x_e;
               R = rotation_about lm o_diff v_e;
               theta = angle_to lm o_diff v_e
           in bindE (get_at gamma' 0) (\<lambda>g0.
              bindE (get_at beta' 0) (\<lambda>b0.
              bindE (get_at k' 0) (\<lambda>k0.
                case coupling_term lm g0 R v_e theta b0 k0 (norm3 lm o_diff) of (cx, cy, cz) \<Rightarrow>
                  Inr (apf_ct @ [cx, cy, cz], beta', gamma', k'))))))
       else
         bindE (calculate_bounding_box_dimensions ob) (\<lambda>dim_e.
         bindE (verticesVectorToEigen ob) (\<lambda>ov_e.
         bindE (calculateCentroid lm ov_e) (\<lambda>oc_e.
         bindE (nearestObjectPoint lm ov_e x_e) (\<lambda>op_e.
         bindE (pad_beta beta') (\<lambda>beta2.
         bindE (pad3 gamma') (\<lambda>gamma2.
         bindE (pad3 k') (\<lambda>k2.
           let oc_diff = vsub oc_e x_e;
               R = rotation_about lm oc_diff v_e;
               theta_o = angle_to lm oc_diff v_e
           in bindE (get_at gamma2 0) (\<lambda>g0.
              bindE (get_at beta2 0) (\<lambda>b0.
              bindE (get_at k2 0) (\<lambda>k0.
                let apf0 = coupling_term lm g0 R v_e theta_o b0 k0 (norm3 lm oc_diff);
                    op_diff = vsub op_e x_e;
                    theta_p = angle_to lm op_diff v_e
                in bindE (get_at gamma2 1) (\<lambda>g1.
                   bindE (get_at beta2 1) (\<lambda>b1.
                   bindE (get_at k2 1) (\<lambda>k1.
                     let apf1 = vadd apf0
                           (coupling_term lm g1 R v_e theta_p b1 k1 (norm3 lm op_diff))
                     in bindE (get_at gamma2 2) (\<lambda>g2.
                        bindE (get_at k2 2) (\<lambda>k2'.
                          let apf2 = vadd apf1
                                (vscale (mat_vec (mscale g2 R) v_e)
                                   (fexp lm (- k2' * norm3 lm op_diff)))
                          in case dim_e of
                               BBoxEmpty \<Rightarrow> Inl Uninitialised
                             | BBox dims3 \<Rightarrow>
                                 (case dims3 of (dx, dy, dz) \<Rightarrow>
                                  case vmul apf2 (n' + m' * dx, n' + m' * dy, n' + m' * dy) of
                                    (cx, cy, cz) \<Rightarrow>
                                      Inr (apf_ct @ [cx, cy, cz], beta2, gamma2, k2)))))))))))))))))))"

definition wf_obstacle :: "'d list list \<Rightarrow> bool" where
  "wf_obstacle ob = (ob \<noteq> [] \<and> list_all (\<lambda>vx. length vx = 3) ob)"

subsection \<open>generatePlan\<close>

text \<open>The in-parameters of generatePlan, in the order of the source. The coefficient vector
  \<^verbatim>\<open>k\<close> and the scale factors \<^verbatim>\<open>m\<close> and \<^verbatim>\<open>n\<close> are the fields \<open>k_coeff\<close>, \<open>scale_m\<close> and
  \<open>scale_n\<close>.\<close>

record 'd plan_request =
  dmp_list :: "'d DMPData list"
  x_0 :: "'d list"
  x_dot_0 :: "'d list"
  t_0 :: 'd
  goal :: "'d list"
  goal_thresh :: "'d list"
  seg_length :: 'd
  tau :: 'd
  total_dt :: 'd
  integrate_iter :: int
  obstacle :: "'d list list"
  beta :: "'d list"
  gamma :: "'d list"
  k_coeff :: "'d list"
  scale_m :: 'd
  scale_n :: 'd

text \<open>The variables that the planning loop changes: the elapsed time \<^verbatim>\<open>t\<close> (\<open>cur_t\<close>), the
  counters and flags, the scratch vectors, and the coefficient vectors, which generatePlan
  takes by value and the coupling function may replace (\<open>cur_beta\<close>, \<open>cur_gamma\<close>, \<open>cur_k\<close>).\<close>

record 'd plan_state =
  cur_t :: 'd
  n_pts :: nat
  at_goal :: bool
  seg_end :: bool
  x_vecs :: "'d list list"
  x_dot_vecs :: "'d list list"
  t_vec :: "'d list"
  cur_beta :: "'d list"
  cur_gamma :: "'d list"
  cur_k :: "'d list"

definition MAX_PLAN_LENGTH :: "'d libm \<Rightarrow> 'd" where
  "MAX_PLAN_LENGTH lm = lit lm 1000"

definition dims_of :: "'d plan_request \<Rightarrow> nat" where
  "dims_of p = length (dmp_list p)"

definition step_dt :: "'d::inverse libm \<Rightarrow> 'd plan_request \<Rightarrow> 'd" where
  "step_dt lm p = total_dt p / lit lm (real_of_int (integrate_iter p))"

text \<open>One pass of the inner loop over \<^verbatim>\<open>iter\<close>, for dimension \<open>i\<close>. \<open>evalAt w\<close> is the
  approximator built from the weights \<open>w\<close>.\<close>

definition substep ::
  "'d::{zero,plus,minus,uminus,times,inverse,ord} libm \<Rightarrow> ('d list \<Rightarrow> 'd \<Rightarrow> 'd) \<Rightarrow>
   'd plan_request \<Rightarrow> 'd plan_state \<Rightarrow> 'd list \<Rightarrow> nat \<Rightarrow> nat \<Rightarrow> 'd \<times> 'd \<Rightarrow> error + 'd \<times> 'd" where
  "substep lm evalAt p s apf_ct i iter xv =
     (case xv of (x, v) \<Rightarrow>
        let s_phase = calcPhase lm ((cur_t s + t_0 p) + (step_dt lm p * lit lm (real iter))) (tau p);
            log_s = (cur_t s + t_0 p) / tau p
        in bindE (get_at (dmp_list p) i) (\<lambda>dm.
           let f_eval = (if log_s \<ge> lit lm 1 then 0 else evalAt (weights dm) log_s * s_phase)
           in bindE (get_at (goal p) i) (\<lambda>g.
              bindE (get_at (x_0 p) i) (\<lambda>x0.
              bindE (get_at apf_ct i) (\<lambda>c.
                let v_dot = (k_gain dm * ((g - x) - (g - x0) * s_phase + f_eval) - d_gain dm * v + c)
                            / tau p;
                    x_dot = v / tau p
                in Inr (x + x_dot * step_dt lm p, v + v_dot * step_dt lm p))))))"

definition plan_start ::
  "'d::times plan_request \<Rightarrow> 'd plan_state \<Rightarrow> 'd list list \<times> 'd list list \<Rightarrow> nat \<Rightarrow>
   error + 'd \<times> 'd" where
  "plan_start p s vecs i =
     (case vecs of (xs, xds) \<Rightarrow>
        if n_pts s = 0 then
          bindE (get_at (x_0 p) i) (\<lambda>x.
          bindE (get_at (x_dot_0 p) i) (\<lambda>v. Inr (x, v)))
        else
          bindE (get_at xs i) (\<lambda>xi.
          bindE (get_at xi (n_pts s - 1)) (\<lambda>x.
          bindE (get_at xds i) (\<lambda>xdi.
          bindE (get_at xdi (n_pts s - 1)) (\<lambda>xd. Inr (x, xd * tau p))))))"

definition plan_dim ::
  "'d::{zero,plus,minus,uminus,times,inverse,ord} libm \<Rightarrow> ('d list \<Rightarrow> 'd \<Rightarrow> 'd) \<Rightarrow>
   'd plan_request \<Rightarrow> 'd plan_state \<Rightarrow> 'd list \<Rightarrow> nat \<Rightarrow> 'd list list \<times> 'd list list \<Rightarrow>
   error + 'd list list \<times> 'd list list" where
  "plan_dim lm evalAt p s apf_ct i vecs =
     (case vecs of (xs, xds) \<Rightarrow>
        bindE (plan_start p s vecs i) (\<lambda>xv.
        bindE (for_loop [0..<nat (integrate_iter p)] (substep lm evalAt p s apf_ct i) xv) (\<lambda>xv'.
        bindE (get_at xs i) (\<lambda>xi.
        bindE (get_at xds i) (\<lambda>xdi.
          Inr (xs[i := xi @ [fst xv']], xds[i := xdi @ [snd xv' / tau p]]))))))"

definition avoid_state ::
  "'d::times plan_request \<Rightarrow> 'd plan_state \<Rightarrow> error + 'd list \<times> 'd list" where
  "avoid_state p s =
     (if n_pts s = 0 then
        bindE (vec3_of (x_0 p)) (\<lambda>x3.
        bindE (vec3_of (x_dot_0 p)) (\<lambda>v3.
          case x3 of (a, b, c) \<Rightarrow> case v3 of (va, vb, vc) \<Rightarrow> Inr ([a, b, c], [va, vb, vc])))
      else
        bindE (get_at (x_vecs s) 0) (\<lambda>xs0. bindE (get_at xs0 (n_pts s - 1)) (\<lambda>a.
        bindE (get_at (x_vecs s) 1) (\<lambda>xs1. bindE (get_at xs1 (n_pts s - 1)) (\<lambda>b.
        bindE (get_at (x_vecs s) 2) (\<lambda>xs2. bindE (get_at xs2 (n_pts s - 1)) (\<lambda>c.
        bindE (get_at (x_dot_vecs s) 0) (\<lambda>xd0. bindE (get_at xd0 (n_pts s - 1)) (\<lambda>va.
        bindE (get_at (x_dot_vecs s) 1) (\<lambda>xd1. bindE (get_at xd1 (n_pts s - 1)) (\<lambda>vb.
        bindE (get_at (x_dot_vecs s) 2) (\<lambda>xd2. bindE (get_at xd2 (n_pts s - 1)) (\<lambda>vc.
          Inr ([a, b, c], [va * tau p, vb * tau p, vc * tau p]))))))))))))))"

definition resize :: "nat \<Rightarrow> 'd \<Rightarrow> 'd list \<Rightarrow> 'd list" where
  "resize m' c xs = take m' xs @ replicate (m' - length xs) c"

definition plan_coupling ::
  "'d::{zero,plus,minus,uminus,times,inverse,ord} libm \<Rightarrow> 'd plan_request \<Rightarrow> 'd plan_state \<Rightarrow>
   error + 'd list \<times> 'd list \<times> 'd list \<times> 'd list" where
  "plan_coupling lm p s =
     (if length (obstacle p) > 0 \<and> (dims_of p = 3 \<or> dims_of p = 6) then
        bindE (avoid_state p s) (\<lambda>avd.
        bindE (artificialPotentialFieldCoupling lm [] (fst avd) (snd avd) (obstacle p)
                 (cur_beta s) (cur_gamma s) (cur_k s) (scale_m p) (scale_n p)) (\<lambda>r.
          case r of (apf_ct, b, g, kc) \<Rightarrow>
            Inr (if dims_of p = 6 then resize 6 0 apf_ct else apf_ct, b, g, kc)))
      else Inr (replicate (dims_of p) 0, cur_beta s, cur_gamma s, cur_k s))"

definition goal_check ::
  "'d::{zero,minus,ord,abs} plan_request \<Rightarrow> 'd list list \<Rightarrow> nat \<Rightarrow> nat \<Rightarrow> bool \<Rightarrow> error + bool" where
  "goal_check p xs n' i ag =
     bindE (get_at (goal_thresh p) i) (\<lambda>th.
       if th > 0 then
         bindE (get_at xs i) (\<lambda>xi.
         bindE (get_at xi (n' - 1)) (\<lambda>x.
         bindE (get_at (goal p) i) (\<lambda>g.
         bindE (get_at (goal_thresh p) i) (\<lambda>th'.
           Inr (if \<bar>x - g\<bar> > th' then False else ag)))))
       else Inr ag)"

definition plan_cond :: "'d::{plus,ord} libm \<Rightarrow> 'd plan_request \<Rightarrow> 'd plan_state \<Rightarrow> bool" where
  "plan_cond lm p s =
     (((cur_t s + t_0 p) < tau p \<or> (\<not> at_goal s \<and> cur_t s < MAX_PLAN_LENGTH lm)) \<and> \<not> seg_end s)"

definition plan_body ::
  "'d::{zero,plus,minus,uminus,times,inverse,ord,abs} libm \<Rightarrow> ('d list \<Rightarrow> 'd \<Rightarrow> 'd) \<Rightarrow>
   'd plan_request \<Rightarrow> 'd plan_state \<Rightarrow> error + 'd plan_state" where
  "plan_body lm evalAt p s =
     (let seg_end' = (if seg_length p > 0 then (if cur_t s > seg_length p then True else seg_end s)
                      else seg_end s)
      in bindE (plan_coupling lm p s) (\<lambda>r.
         case r of (apf_ct, b, g, kc) \<Rightarrow>
         bindE (for_loop [0..<dims_of p] (plan_dim lm evalAt p s apf_ct) (x_vecs s, x_dot_vecs s))
           (\<lambda>vecs.
              let t' = cur_t s + total_dt p;
                  n' = n_pts s + 1
              in bindE (if (t' + t_0 p) \<ge> tau p
                        then for_loop [0..<dims_of p] (goal_check p (fst vecs) n') True
                        else Inr (at_goal s)) (\<lambda>ag.
                   Inr \<lparr>cur_t = t', n_pts = n', at_goal = ag, seg_end = seg_end',
                        x_vecs = fst vecs, x_dot_vecs = snd vecs, t_vec = t_vec s @ [t'],
                        cur_beta = b, cur_gamma = g, cur_k = kc\<rparr>))))"

definition plan_init :: "'d::zero plan_request \<Rightarrow> 'd plan_state" where
  "plan_init p =
     \<lparr>cur_t = 0, n_pts = 0, at_goal = False, seg_end = False,
      x_vecs = replicate (dims_of p) [], x_dot_vecs = replicate (dims_of p) [], t_vec = [],
      cur_beta = beta p, cur_gamma = gamma p, cur_k = k_coeff p\<rparr>"

text \<open>The \<^verbatim>\<open>while\<close> loop. It need not terminate (for instance when \<^verbatim>\<open>total_dt\<close> is zero), so
  its result is an option: \<open>None\<close> is a loop that runs forever.\<close>

partial_function (option) plan_while ::
  "'d::{zero,plus,minus,uminus,times,inverse,ord,abs} libm \<Rightarrow> ('d list \<Rightarrow> 'd \<Rightarrow> 'd) \<Rightarrow>
   'd plan_request \<Rightarrow> 'd plan_state \<Rightarrow> (error + 'd plan_state) option" where
  "plan_while lm evalAt p s =
     (if plan_cond lm p s then
        (case plan_body lm evalAt p s of
           Inl e \<Rightarrow> Some (Inl e)
         | Inr s' \<Rightarrow> plan_while lm evalAt p s')
      else Some (Inr s))"

text \<open>Each \<^verbatim>\<open>x_vecs[i]\<close> and \<^verbatim>\<open>x_dot_vecs[i]\<close> holds \<open>n_pts\<close> entries when the loop ends.\<close>

definition make_plan :: "'d plan_request \<Rightarrow> 'd plan_state \<Rightarrow> 'd DMPTraj" where
  "make_plan p s =
     \<lparr>points = map (\<lambda>j. \<lparr>positions = map (\<lambda>i. x_vecs s ! i ! j) [0..<dims_of p],
                          velocities = map (\<lambda>i. x_dot_vecs s ! i ! j) [0..<dims_of p]\<rparr>)
                   [0..<n_pts s],
      times = t_vec s\<rparr>"

definition generatePlan ::
  "'d::{zero,plus,minus,uminus,times,inverse,ord,abs} libm \<Rightarrow> ('d list \<Rightarrow> 'd \<Rightarrow> 'd) \<Rightarrow>
   'd plan_request \<Rightarrow> (error + 'd DMPTraj \<times> bool) option" where
  "generatePlan lm evalAt p =
     (case plan_while lm evalAt p (plan_init p) of
        None \<Rightarrow> None
      | Some (Inl e) \<Rightarrow> Some (Inl e)
      | Some (Inr s) \<Rightarrow> Some (Inr (make_plan p s, at_goal s)))"

text \<open>The states of the loop: the initial one, and every state that an iteration of the
  body leaves.\<close>

inductive plan_reach ::
  "'d::{zero,plus,minus,uminus,times,inverse,ord,abs} libm \<Rightarrow> ('d list \<Rightarrow> 'd \<Rightarrow> 'd) \<Rightarrow>
   'd plan_request \<Rightarrow> 'd plan_state \<Rightarrow> bool" where
  reach_init: "plan_reach lm evalAt p (plan_init p)"
| reach_step: "plan_reach lm evalAt p s \<Longrightarrow> plan_cond lm p s \<Longrightarrow> plan_body lm evalAt p s = Inr s' \<Longrightarrow>
     plan_reach lm evalAt p s'"

text \<open>What the loop keeps true of its scratch vectors and of the coefficient vectors.\<close>

definition shape :: "'d plan_request \<Rightarrow> 'd plan_state \<Rightarrow> bool" where
  "shape p s = (length (x_vecs s) = dims_of p \<and> length (x_dot_vecs s) = dims_of p \<and>
     (\<forall>i<dims_of p. length (x_vecs s ! i) = n_pts s \<and> length (x_dot_vecs s ! i) = n_pts s) \<and>
     length (t_vec s) = n_pts s)"




text \<open>The transformation system as the specification writes it, in the arithmetic of the
  program: the forcing term, the velocity update, and one output step of \<open>integrate_iter\<close>
  forward-Euler sub-steps from the position \<open>x\<close> and the scaled velocity \<open>v\<close>.\<close>

definition f_eval_spec ::
  "'d::{zero,plus,times,inverse,ord} libm \<Rightarrow> ('d list \<Rightarrow> 'd \<Rightarrow> 'd) \<Rightarrow> 'd plan_request \<Rightarrow> nat \<Rightarrow>
   'd \<Rightarrow> 'd \<Rightarrow> 'd" where
  "f_eval_spec lm evalAt p i elapsed s_phase =
     (if (elapsed + t_0 p) / tau p \<ge> lit lm 1 then 0
      else evalAt (weights (dmp_list p ! i)) ((elapsed + t_0 p) / tau p) * s_phase)"

definition v_dot_spec ::
  "'d::{zero,plus,minus,uminus,times,inverse,ord} libm \<Rightarrow> ('d list \<Rightarrow> 'd \<Rightarrow> 'd) \<Rightarrow>
   'd plan_request \<Rightarrow> nat \<Rightarrow> 'd \<Rightarrow> 'd \<Rightarrow> nat \<Rightarrow> 'd \<Rightarrow> 'd \<Rightarrow> 'd" where
  "v_dot_spec lm evalAt p i coupling elapsed iter x v =
     (let s_phase = calcPhase lm (elapsed + t_0 p + step_dt lm p * lit lm (real iter)) (tau p)
      in (k_gain (dmp_list p ! i) *
            ((goal p ! i - x) - (goal p ! i - x_0 p ! i) * s_phase
             + f_eval_spec lm evalAt p i elapsed s_phase)
          - d_gain (dmp_list p ! i) * v + coupling) / tau p)"

definition euler_spec ::
  "'d::{zero,plus,minus,uminus,times,inverse,ord} libm \<Rightarrow> ('d list \<Rightarrow> 'd \<Rightarrow> 'd) \<Rightarrow>
   'd plan_request \<Rightarrow> nat \<Rightarrow> 'd \<Rightarrow> 'd \<Rightarrow> nat \<Rightarrow> 'd \<times> 'd \<Rightarrow> 'd \<times> 'd" where
  "euler_spec lm evalAt p i coupling elapsed iter xv =
     (case xv of (x, v) \<Rightarrow>
        (x + v / tau p * step_dt lm p,
         v + v_dot_spec lm evalAt p i coupling elapsed iter x v * step_dt lm p))"

text \<open>The position and the scaled velocity that an output step starts from in dimension
  \<open>i\<close>: the initial state, or the last planned point with its velocity scaled by \<open>tau\<close>.\<close>

definition step_start :: "'d::times plan_request \<Rightarrow> 'd plan_state \<Rightarrow> nat \<Rightarrow> 'd \<times> 'd" where
  "step_start p s i =
     (if n_pts s = 0 then (x_0 p ! i, x_dot_0 p ! i)
      else (last (x_vecs s ! i), last (x_dot_vecs s ! i) * tau p))"

text \<open>The \<open>n\<close>-th time stamp of a sequence with constant step \<open>dt\<close> that starts after time
  zero: \<open>dt\<close> added \<open>n\<close> times to zero, one addition of the program's arithmetic at a time.\<close>

fun stamp :: "'d::{zero,plus} \<Rightarrow> nat \<Rightarrow> 'd" where
  "stamp dt 0 = 0"
| "stamp dt (Suc n) = stamp dt n + dt"

text \<open>The goal test as the specification writes it: no dimension with a positive
  threshold has its last planned position farther than the threshold from the goal.\<close>

definition within_thresholds :: "'d::{zero,minus,ord,abs} plan_request \<Rightarrow> 'd plan_state \<Rightarrow> bool" where
  "within_thresholds p s =
     (\<forall>i < dims_of p. goal_thresh p ! i > 0 \<longrightarrow>
        \<bar>last (x_vecs s ! i) - goal p ! i\<bar> \<le> goal_thresh p ! i)"

subsection \<open>planCallback\<close>

text \<open>The loop \<^verbatim>\<open>for (int i = 0; i < req.obstacle.size(); i += 3)\<close> of planCallback.\<close>

function obstacle_loop :: "'d list \<Rightarrow> nat \<Rightarrow> 'd list list \<Rightarrow> error + 'd list list" where
  "obstacle_loop req_obstacle i ob =
     (if i < length req_obstacle then
        bindE (get_at req_obstacle i) (\<lambda>a.
        bindE (get_at req_obstacle (i + 1)) (\<lambda>b.
        bindE (get_at req_obstacle (i + 2)) (\<lambda>c.
          obstacle_loop req_obstacle (i + 3) (ob @ [[a, b, c]]))))
      else Inr ob)"
  by pat_completeness auto
termination
  by (relation "measure (\<lambda>(req_obstacle, i, ob). length req_obstacle - i)") auto

declare obstacle_loop.simps [simp del]

definition planCallback_obstacle :: "'d list \<Rightarrow> error + 'd list list" where
  "planCallback_obstacle req_obstacle =
     (if length req_obstacle > 3 then obstacle_loop req_obstacle 0 []
      else if length req_obstacle = 3 then Inr [req_obstacle]
      else Inr [])"

text \<open>planCallback plans with the global \<^verbatim>\<open>active_dmp_list\<close>, here the field \<open>dmp_list\<close>
  of the request, and with the obstacle that it builds from the flat list.\<close>

definition planCallback ::
  "'d::{zero,plus,minus,uminus,times,inverse,ord,abs} libm \<Rightarrow> ('d list \<Rightarrow> 'd \<Rightarrow> 'd) \<Rightarrow>
   'd plan_request \<Rightarrow> 'd list \<Rightarrow> (error + 'd DMPTraj \<times> bool) option" where
  "planCallback lm evalAt req req_obstacle =
     (case planCallback_obstacle req_obstacle of
        Inl e \<Rightarrow> Some (Inl e)
      | Inr ob \<Rightarrow> generatePlan lm evalAt (req\<lparr>obstacle := ob\<rparr>))"

subsection \<open>Exact arithmetic\<close>

text \<open>Over \<open>real\<close> every operation is the mathematical one. Nothing rounds or overflows, and
  \<open>x / 0\<close> is \<open>0\<close>: this arithmetic says what the program computes when every step is exact,
  and nothing about an execution that divides by zero.\<close>

definition exact_libm :: "real libm" where
  "exact_libm = \<lparr>lit = (\<lambda>r. r), fexp = exp, flog = ln, fsqrt = sqrt, fsin = sin, fcos = cos,
                  facos = arccos\<rparr>"

subsection \<open>IEEE 754 binary64 arithmetic\<close>

text \<open>A double is a finite number, an infinity or NaN. \<open>rnd\<close> rounds a real to the nearest
  number with a significand of 53 bits and an exponent of at least \<open>-1022\<close>, ties to the even
  significand; a result of magnitude \<open>2^1024 - 2^970\<close> or more overflows to an infinity. The
  sign of a zero is not kept (\<open>x / 0\<close> is \<open>+\<infinity>\<close> for a positive \<open>x\<close>), and the functions of the
  mathematical library are taken to round correctly.\<close>

datatype double = Fin real | PInf | NInf | NaN

definition round_even :: "real \<Rightarrow> int" where
  "round_even y =
     (let f = \<lfloor>y\<rfloor>; r = y - real_of_int f
      in if r < 1 / 2 then f else if 1 / 2 < r then f + 1 else if even f then f else f + 1)"

definition pow2 :: "int \<Rightarrow> real" where
  "pow2 e = (if 0 \<le> e then 2 ^ nat e else 1 / 2 ^ nat (- e))"

definition expo :: "real \<Rightarrow> int" where
  "expo x = max \<lfloor>log 2 \<bar>x\<bar>\<rfloor> (- 1022)"

definition rnd :: "real \<Rightarrow> real" where
  "rnd x = (if x = 0 then 0
            else real_of_int (round_even (x / pow2 (expo x - 52))) * pow2 (expo x - 52))"

definition overflow_threshold :: real where
  "overflow_threshold = 2 ^ 1024 - 2 ^ 970"

definition to_double :: "real \<Rightarrow> double" where
  "to_double r =
     (if overflow_threshold \<le> r then PInf
      else if r \<le> - overflow_threshold then NInf
      else Fin (rnd r))"

instantiation double :: "{zero,plus,minus,uminus,times,inverse,ord,abs}"
begin

definition zero_double :: double where
  "zero_double = Fin 0"

fun plus_double :: "double \<Rightarrow> double \<Rightarrow> double" where
  "plus_double (Fin a) (Fin b) = to_double (a + b)"
| "plus_double NaN b = NaN"
| "plus_double a NaN = NaN"
| "plus_double PInf NInf = NaN"
| "plus_double NInf PInf = NaN"
| "plus_double PInf b = PInf"
| "plus_double a PInf = PInf"
| "plus_double NInf b = NInf"
| "plus_double a NInf = NInf"

fun uminus_double :: "double \<Rightarrow> double" where
  "uminus_double (Fin a) = Fin (- a)"
| "uminus_double PInf = NInf"
| "uminus_double NInf = PInf"
| "uminus_double NaN = NaN"

definition minus_double :: "double \<Rightarrow> double \<Rightarrow> double" where
  "minus_double a b = a + (- b)"

fun times_double :: "double \<Rightarrow> double \<Rightarrow> double" where
  "times_double (Fin a) (Fin b) = to_double (a * b)"
| "times_double NaN b = NaN"
| "times_double a NaN = NaN"
| "times_double (Fin a) PInf = (if a = 0 then NaN else if 0 < a then PInf else NInf)"
| "times_double (Fin a) NInf = (if a = 0 then NaN else if 0 < a then NInf else PInf)"
| "times_double PInf (Fin b) = (if b = 0 then NaN else if 0 < b then PInf else NInf)"
| "times_double NInf (Fin b) = (if b = 0 then NaN else if 0 < b then NInf else PInf)"
| "times_double PInf PInf = PInf"
| "times_double NInf NInf = PInf"
| "times_double PInf NInf = NInf"
| "times_double NInf PInf = NInf"

fun divide_double :: "double \<Rightarrow> double \<Rightarrow> double" where
  "divide_double (Fin a) (Fin b) =
     (if b = 0 then (if a = 0 then NaN else if 0 < a then PInf else NInf)
      else to_double (a / b))"
| "divide_double NaN b = NaN"
| "divide_double a NaN = NaN"
| "divide_double (Fin a) PInf = Fin 0"
| "divide_double (Fin a) NInf = Fin 0"
| "divide_double PInf (Fin b) = (if 0 \<le> b then PInf else NInf)"
| "divide_double NInf (Fin b) = (if 0 \<le> b then NInf else PInf)"
| "divide_double PInf b = NaN"
| "divide_double NInf b = NaN"

fun inverse_double :: "double \<Rightarrow> double" where
  "inverse_double (Fin b) = (if b = 0 then PInf else to_double (1 / b))"
| "inverse_double PInf = Fin 0"
| "inverse_double NInf = Fin 0"
| "inverse_double NaN = NaN"

fun less_double :: "double \<Rightarrow> double \<Rightarrow> bool" where
  "less_double (Fin a) (Fin b) = (a < b)"
| "less_double (Fin a) PInf = True"
| "less_double NInf (Fin b) = True"
| "less_double NInf PInf = True"
| "less_double a b = False"

definition less_eq_double :: "double \<Rightarrow> double \<Rightarrow> bool" where
  "less_eq_double a b = (a < b \<or> (a = b \<and> a \<noteq> NaN))"

fun abs_double :: "double \<Rightarrow> double" where
  "abs_double (Fin a) = Fin \<bar>a\<bar>"
| "abs_double PInf = PInf"
| "abs_double NInf = PInf"
| "abs_double NaN = NaN"

instance ..

end

fun double_exp :: "double \<Rightarrow> double" where
  "double_exp (Fin a) = to_double (exp a)"
| "double_exp PInf = PInf"
| "double_exp NInf = Fin 0"
| "double_exp NaN = NaN"

fun double_log :: "double \<Rightarrow> double" where
  "double_log (Fin a) = (if a < 0 then NaN else if a = 0 then NInf else to_double (ln a))"
| "double_log PInf = PInf"
| "double_log a = NaN"

fun double_sqrt :: "double \<Rightarrow> double" where
  "double_sqrt (Fin a) = (if a < 0 then NaN else to_double (sqrt a))"
| "double_sqrt PInf = PInf"
| "double_sqrt a = NaN"

fun double_sin :: "double \<Rightarrow> double" where
  "double_sin (Fin a) = to_double (sin a)"
| "double_sin a = NaN"

fun double_cos :: "double \<Rightarrow> double" where
  "double_cos (Fin a) = to_double (cos a)"
| "double_cos a = NaN"

fun double_acos :: "double \<Rightarrow> double" where
  "double_acos (Fin a) = (if 1 < \<bar>a\<bar> then NaN else to_double (arccos a))"
| "double_acos a = NaN"

definition double_libm :: "double libm" where
  "double_libm = \<lparr>lit = to_double, fexp = double_exp, flog = double_log, fsqrt = double_sqrt,
                   fsin = double_sin, fcos = double_cos, facos = double_acos\<rparr>"

subsection \<open>Example requests\<close>

text \<open>An approximator whose value is a constant, and the one whose value is zero.\<close>

definition const_approx :: "'d \<Rightarrow> 'd list \<Rightarrow> 'd \<Rightarrow> 'd" where
  "const_approx c w x = c"

definition zero_approx :: "'d::zero list \<Rightarrow> 'd \<Rightarrow> 'd" where
  "zero_approx w x = 0"

text \<open>A one-dimensional primitive with a zero forcing term, started at rest on its goal
  (\<open>rest_request\<close>), the same primitive with a nominal duration above \<open>MAX_PLAN_LENGTH\<close>
  (\<open>long_request\<close>), and the same primitive started away from its goal with a velocity
  (\<open>push_request\<close>).\<close>

definition rest_request :: "real plan_request" where
  "rest_request =
     \<lparr>dmp_list = [\<lparr>k_gain = 25, d_gain = 10, weights = [], f_domain = [], f_targets = []\<rparr>],
      x_0 = [10], x_dot_0 = [0], t_0 = 0, goal = [10], goal_thresh = [1 / 100],
      seg_length = - 1, tau = 1, total_dt = 1, integrate_iter = 1, obstacle = [],
      beta = [], gamma = [], k_coeff = [], scale_m = 0, scale_n = 0\<rparr>"


definition push_request :: "real plan_request" where
  "push_request = rest_request\<lparr>x_0 := [0], x_dot_0 := [2], tau := 2\<rparr>"



text \<open>A one-dimensional primitive, over doubles, started at rest away from its goal, with a
  nominal duration \<open>tau\<close> of zero.\<close>

definition zero_tau_request :: "double plan_request" where
  "zero_tau_request =
     \<lparr>dmp_list = [\<lparr>k_gain = Fin 25, d_gain = Fin 10, weights = [], f_domain = [], f_targets = []\<rparr>],
      x_0 = [Fin 0], x_dot_0 = [Fin 0], t_0 = Fin 0, goal = [Fin 10], goal_thresh = [Fin 1],
      seg_length = Fin (- 1), tau = Fin 0, total_dt = Fin 1, integrate_iter = 1, obstacle = [],
      beta = [], gamma = [], k_coeff = [], scale_m = Fin 0, scale_n = Fin 0\<rparr>"


section \<open>Properties\<close>

lemma bindE_Inr [simp]: "bindE (Inr x) f = f x"
  by (simp add: bindE_def)

lemma bindE_Inl [simp]: "bindE (Inl e) f = Inl e"
  by (simp add: bindE_def)

lemma at_in [simp]: "i < length xs \<Longrightarrow> get_at xs i = Inr (xs ! i)"
  by (simp add: get_at_def)

lemma at_out [simp]: "\<not> i < length xs \<Longrightarrow> get_at xs i = Inl OutOfBounds"
  by (simp add: get_at_def)

lemma for_loop_append:
  "for_loop (is @ js) body s = bindE (for_loop is body s) (for_loop js body)"
  by (induction "is" arbitrary: s) (auto simp: bindE_def split: sum.splits)

subsection \<open>learnFromDemo\<close>

lemma demo_diff_step:
  assumes "Suc m < length (points demo)" "length (times demo) = length (points demo)"
    "d < length (positions (points demo ! Suc m))"
  shows "demo_diff demo d (Suc m) (map (demo_x demo d) [0..<Suc m], map (demo_v demo d) [0..<Suc m],
          map (demo_v_dot demo d) [0..<Suc m]) =
     Inr (map (demo_x demo d) [0..<Suc (Suc m)], map (demo_v demo d) [0..<Suc (Suc m)],
          map (demo_v_dot demo d) [0..<Suc (Suc m)])"
proof -
  have nth: "\<And>f::nat \<Rightarrow> 'a. map f [0..<Suc m] ! m = f m"
    by (metis add_0 lessI nth_map_upt diff_zero)
  have x: "demo_x demo d (Suc m) = positions (points demo ! Suc m) ! d"
    by (simp add: demo_x_def)
  have v: "demo_v demo d (Suc m) =
      (demo_x demo d (Suc m) - demo_x demo d m) / (times demo ! Suc m - times demo ! m)"
    by (simp add: demo_v_def)
  have vd: "demo_v_dot demo d (Suc m) =
      (demo_v demo d (Suc m) - demo_v demo d m) / (times demo ! Suc m - times demo ! m)"
    by (simp add: demo_v_dot_def)
  have ext: "[0..<Suc (Suc m)] = [0..<Suc m] @ [Suc m]"
    by simp
  show ?thesis
    using assms
    by (simp add: demo_diff_def Let_def nth x v vd ext del: upt_Suc)
qed

lemma demo_diff_loop:
  assumes "Suc m \<le> length (points demo)" "length (times demo) = length (points demo)"
    "\<forall>p\<in>set (points demo). d < length (positions p)"
  shows "for_loop [1..<Suc m] (demo_diff demo d) ([demo_x demo d 0], [0], [0]) =
     Inr (map (demo_x demo d) [0..<Suc m], map (demo_v demo d) [0..<Suc m],
          map (demo_v_dot demo d) [0..<Suc m])"
  using assms
proof (induction m)
  case 0
  then show ?case by (simp add: demo_v_def demo_v_dot_def)
next
  case (Suc m)
  have d: "d < length (positions (points demo ! Suc m))"
    using Suc.prems by (metis Suc_le_lessD nth_mem)
  have split: "[1..<Suc (Suc m)] = [1..<Suc m] @ [Suc m]"
    by simp
  have IH: "for_loop [1..<Suc m] (demo_diff demo d) ([demo_x demo d 0], [0], [0]) =
     Inr (map (demo_x demo d) [0..<Suc m], map (demo_v demo d) [0..<Suc m],
          map (demo_v_dot demo d) [0..<Suc m])"
    using Suc by simp
  have step: "demo_diff demo d (Suc m) (map (demo_x demo d) [0..<Suc m], map (demo_v demo d) [0..<Suc m],
          map (demo_v_dot demo d) [0..<Suc m]) =
     Inr (map (demo_x demo d) [0..<Suc (Suc m)], map (demo_v demo d) [0..<Suc (Suc m)],
          map (demo_v_dot demo d) [0..<Suc (Suc m)])"
    using Suc.prems d by (intro demo_diff_step) simp_all
  show ?case
    unfolding split for_loop_append IH bindE_Inr
    using step by simp
qed

lemma demo_target_loop:
  assumes "m \<le> n" "length (times demo) = n" "length xs = n" "length vs = n" "length vds = n"
  shows "for_loop [0..<m] (demo_target lm demo tau' ck cd x0 g (xs, vs, vds)) ([], []) =
     Inr (map (\<lambda>i. times demo ! i / tau') [0..<m],
          map (\<lambda>i. (((tau' * tau' * vds ! i + cd * tau' * vs ! i) / ck) - (g - xs ! i)
                    + ((g - x0) * calcPhase lm (times demo ! i) tau')) / calcPhase lm (times demo ! i) tau') [0..<m])"
  using assms
proof (induction m)
  case 0
  then show ?case by simp
next
  case (Suc m)
  then show ?case
    by (simp add: for_loop_append demo_target_def Let_def)
qed

lemma learn_dim_ok:
  assumes wf: "wf_demo demo k_gains d_gains" and d: "d < length (positions (hd (points demo)))"
  shows "learn_dim lm lsq demo k_gains d_gains nb (length (points demo)) (last (times demo)) d dl =
     Inr (dl @ [\<lparr>k_gain = k_gains ! d, d_gain = d_gains ! d,
        weights = lsq nb (map (\<lambda>i. times demo ! i / last (times demo)) [0..<length (points demo)])
                   (map (target_spec lm demo k_gains d_gains d) [0..<length (points demo)]),
        f_domain = map (\<lambda>i. times demo ! i / last (times demo)) [0..<length (points demo)],
        f_targets = map (target_spec lm demo k_gains d_gains d) [0..<length (points demo)]\<rparr>])"
proof -
  obtain m where n: "length (points demo) = Suc m"
    using wf by (cases "points demo") (auto simp: wf_demo_def)
  have lt: "length (times demo) = length (points demo)"
    using wf by (simp add: wf_demo_def)
  have all: "\<forall>p\<in>set (points demo). d < length (positions p)"
    using wf d by (auto simp: wf_demo_def list_all_iff)
  have hd0: "hd (points demo) = points demo ! 0"
    using n by (cases "points demo") auto
  have d0: "d < length (positions (points demo ! 0))"
    using all n by (metis nth_mem zero_less_Suc)
  have dm: "d < length (positions (points demo ! m))"
    using all n by (metis nth_mem lessI)
  have kd: "d < length k_gains" "d < length d_gains"
    using wf d by (auto simp: wf_demo_def)
  have init: "demo_init demo d = Inr ([demo_x demo d 0], [0], [0])"
    using n d0 by (simp add: demo_init_def demo_x_def)
  have diff: "for_loop [1..<Suc m] (demo_diff demo d) ([demo_x demo d 0], [0], [0]) =
     Inr (map (demo_x demo d) [0..<Suc m], map (demo_v demo d) [0..<Suc m],
          map (demo_v_dot demo d) [0..<Suc m])"
    using n lt all by (intro demo_diff_loop) simp_all
  have tgt: "for_loop [0..<Suc m]
       (demo_target lm demo (last (times demo)) (k_gains ! d) (d_gains ! d)
          (positions (points demo ! 0) ! d) (positions (points demo ! m) ! d)
          (map (demo_x demo d) [0..<Suc m], map (demo_v demo d) [0..<Suc m],
           map (demo_v_dot demo d) [0..<Suc m])) ([], []) =
     Inr (map (\<lambda>i. times demo ! i / last (times demo)) [0..<Suc m],
          map (target_spec lm demo k_gains d_gains d) [0..<Suc m])"
    using n lt
    by (subst demo_target_loop[where n = "Suc m"])
       (simp_all add: target_spec_def Let_def demo_x_def power2_eq_square del: upt_Suc)
  show ?thesis
    unfolding learn_dim_def n
    using kd d0 dm n init diff tgt
    by (simp del: upt_Suc)
qed

lemma learn_dims_loop:
  assumes wf: "wf_demo demo k_gains d_gains" and m: "m \<le> length (positions (hd (points demo)))"
  shows "for_loop [0..<m]
      (learn_dim lm lsq demo k_gains d_gains nb (length (points demo)) (last (times demo))) [] =
     Inr (map (\<lambda>d. \<lparr>k_gain = k_gains ! d, d_gain = d_gains ! d,
        weights = lsq nb (map (\<lambda>i. times demo ! i / last (times demo)) [0..<length (points demo)])
                   (map (target_spec lm demo k_gains d_gains d) [0..<length (points demo)]),
        f_domain = map (\<lambda>i. times demo ! i / last (times demo)) [0..<length (points demo)],
        f_targets = map (target_spec lm demo k_gains d_gains d) [0..<length (points demo)]\<rparr>) [0..<m])"
  using m
proof (induction m)
  case 0
  then show ?case by simp
next
  case (Suc m)
  then have "m < length (positions (hd (points demo)))" by simp
  from learn_dim_ok[OF wf this] Suc show ?case
    by (simp add: for_loop_append)
qed

text \<open>
  Claim C1. For a non-empty demonstration whose times, positions and gains cover every
  sample and dimension, learnFromDemo returns one primitive per dimension, and for each
  dimension \<open>d\<close> the targets handed to the approximator (and kept in \<open>f_targets\<close>) are
  \<open>target_spec\<close> at every sample: the forcing-term formula over \<open>tau\<close> the last time stamp,
  \<open>x_0\<close> the first and \<open>goal\<close> the last position, and the first differences \<open>demo_v\<close> and
  \<open>demo_v_dot\<close>, both zero at sample 0. The weights are the approximator's fit of these
  targets over the domain \<open>t[i] / tau\<close>. This holds in every arithmetic, the formula being
  evaluated with the operations of the program (\<open>tau\<^sup>2\<close> is the product \<open>tau * tau\<close>): where
  the program divides by a zero \<open>tau\<close>, gain, phase or time difference, the formula does too.
\<close>

theorem learnFromDemo_targets:
  assumes "wf_demo demo k_gains d_gains"
  shows "\<exists>dmp_list. learnFromDemo lm lsq demo k_gains d_gains nb = Inr dmp_list \<and>
      length dmp_list = length (positions (hd (points demo))) \<and>
      (\<forall>d < length dmp_list.
         f_targets (dmp_list ! d) =
           map (target_spec lm demo k_gains d_gains d) [0..<length (points demo)] \<and>
         f_domain (dmp_list ! d) =
           map (\<lambda>i. times demo ! i / last (times demo)) [0..<length (points demo)] \<and>
         weights (dmp_list ! d) = lsq nb (f_domain (dmp_list ! d)) (f_targets (dmp_list ! d)))"
proof -
  have ne: "points demo \<noteq> []" and lt: "length (times demo) = length (points demo)"
    using assms by (simp_all add: wf_demo_def)
  have hd0: "points demo ! 0 = hd (points demo)"
    using ne by (simp add: hd_conv_nth)
  have tl: "times demo ! (length (points demo) - 1) = last (times demo)"
    using ne lt by (metis last_conv_nth length_0_conv)
  have "learnFromDemo lm lsq demo k_gains d_gains nb =
      for_loop [0..<length (positions (hd (points demo)))]
        (learn_dim lm lsq demo k_gains d_gains nb (length (points demo)) (last (times demo))) []"
    using ne lt hd0 tl by (simp add: learnFromDemo_def Let_def)
  then show ?thesis
    by (simp add: learn_dims_loop[OF assms order_refl])
qed
lemma exact_lit [simp]: "lit exact_libm r = r"
  by (simp add: exact_libm_def)

lemma calcPhase_end: "tau' \<noteq> 0 \<Longrightarrow> calcPhase exact_libm tau' tau' = 1 / 100"
  by (simp add: calcPhase_def alpha_def exact_libm_def ln_div exp_minus)

lemma calcPhase_start: "calcPhase exact_libm 0 tau' = 1"
  by (simp add: calcPhase_def exact_libm_def)

theorem learnFromDemo_targets_witness:
  "wf_demo \<lparr>points = [\<lparr>positions = [0], velocities = []\<rparr>, \<lparr>positions = [10], velocities = []\<rparr>],
          times = [0, 2 :: real]\<rparr> [25] [10] \<and>
   (\<exists>dmp_list. learnFromDemo exact_libm (\<lambda>n xs ys. ys)
        \<lparr>points = [\<lparr>positions = [0], velocities = []\<rparr>, \<lparr>positions = [10], velocities = []\<rparr>],
          times = [0, 2]\<rparr> [25] [10] 4 = Inr dmp_list \<and>
      length dmp_list = 1 \<and> f_domain (dmp_list ! 0) = [0, 1] \<and>
      f_targets (dmp_list ! 0) = [0, 450])"
proof -
  have wf: "wf_demo \<lparr>points = [\<lparr>positions = [0], velocities = []\<rparr>, \<lparr>positions = [10], velocities = []\<rparr>],
          times = [0, 2 :: real]\<rparr> [25] [10]"
    by (simp add: wf_demo_def)
  have ph: "calcPhase exact_libm 2 2 = 1 / 100" "calcPhase exact_libm 0 2 = 1"
    by (simp_all add: calcPhase_end calcPhase_start)
  show ?thesis
    using wf learnFromDemo_targets [OF wf, of exact_libm "\<lambda>n xs ys. ys" 4]
    by (auto simp: target_spec_def demo_x_def demo_v_def demo_v_dot_def ph)
qed

subsection \<open>Loops and reads\<close>

lemma for_loop_inv:
  assumes "I s" and "\<And>i s. i \<in> set js \<Longrightarrow> I s \<Longrightarrow> \<exists>s'. body i s = Inr s' \<and> I s'"
  shows "\<exists>s'. for_loop js body s = Inr s' \<and> I s'"
  using assms
proof (induction js arbitrary: s)
  case Nil
  then show ?case by simp
next
  case (Cons j js)
  from Cons.prems obtain s1 where s1: "body j s = Inr s1" "I s1"
    by (meson list.set_intros(1))
  have "\<exists>s'. for_loop js body s1 = Inr s' \<and> I s'"
    by (rule Cons.IH) (use s1 Cons.prems in auto)
  with s1 show ?case by simp
qed

lemma bindE_eq_Inr: "bindE m f = Inr y \<longleftrightarrow> (\<exists>x. m = Inr x \<and> f x = Inr y)"
  by (cases m) simp_all

lemma vec3_of_ok:
  assumes "3 \<le> length xs"
  shows "vec3_of xs = Inr (xs ! 0, xs ! 1, xs ! 2)"
proof -
  have "0 < length xs" "1 < length xs" "2 < length xs"
    using assms by auto
  then show ?thesis
    unfolding vec3_of_def get_at_def by simp
qed

subsection \<open>Geometry helpers\<close>

lemma bbox_point_ok:
  assumes "i < length min_values" "i < length point" "length max_values = length min_values"
  shows "\<exists>mm. bbox_point point i (min_values, max_values) = Inr mm \<and>
     length (fst mm) = length min_values \<and> length (snd mm) = length min_values"
  using assms by (simp add: bbox_point_def)

lemma bbox_points_ok:
  assumes "j < length (pts :: 'a::ord list list)" "length (pts ! j) \<le> L" "length (fst mm) = L"
    "length (snd mm) = L"
  shows "\<exists>mm'. bbox_points pts j mm = Inr mm' \<and> length (fst mm') = L \<and> length (snd mm') = L"
proof -
  have "\<exists>mm'. for_loop [0..<length (pts ! j)] (bbox_point (pts ! j)) mm = Inr mm' \<and>
      (length (fst mm') = L \<and> length (snd mm') = L)"
  proof (rule for_loop_inv)
    show "length (fst mm) = L \<and> length (snd mm) = L" using assms by simp
  next
    fix i and s :: "'a list \<times> 'a list"
    assume "i \<in> set [0..<length (pts ! j)]" "length (fst s) = L \<and> length (snd s) = L"
    then show "\<exists>s'. bbox_point (pts ! j) i s = Inr s' \<and> length (fst s') = L \<and> length (snd s') = L"
      using bbox_point_ok[of i "fst s" "pts ! j" "snd s"] assms(2) by auto
  qed
  then show ?thesis using assms(1) by (simp add: bbox_points_def)
qed

lemma bounding_box_ok:
  assumes "wf_obstacle (ob :: 'a::{minus,ord} list list)"
  shows "\<exists>d3. calculate_bounding_box_dimensions ob = Inr (BBox d3)"
proof -
  from assms have ne: "ob \<noteq> []" and all3: "\<And>j. j < length ob \<Longrightarrow> length (ob ! j) = 3"
    by (auto simp: wf_obstacle_def list_all_length)
  have hd3: "length (hd ob) = 3" "hd ob = ob ! 0"
    using ne all3[of 0] by (simp_all add: hd_conv_nth)
  have "\<exists>mm'. for_loop [0..<length ob] (bbox_points ob) (ob ! 0, ob ! 0) = Inr mm' \<and>
      (length (fst mm') = 3 \<and> length (snd mm') = 3)"
  proof (rule for_loop_inv)
    show "length (fst (ob ! 0, ob ! 0)) = 3 \<and> length (snd (ob ! 0, ob ! 0)) = 3"
      using hd3 by simp
  next
    fix j and s :: "'a list \<times> 'a list"
    assume "j \<in> set [0..<length ob]" "length (fst s) = 3 \<and> length (snd s) = 3"
    then show "\<exists>s'. bbox_points ob j s = Inr s' \<and> length (fst s') = 3 \<and> length (snd s') = 3"
      using bbox_points_ok[of j ob 3 s] all3[of j] by auto
  qed
  then obtain mn mx where mm: "for_loop [0..<length ob] (bbox_points ob) (ob ! 0, ob ! 0) = Inr (mn, mx)"
    "length mn = 3" "length mx = 3" by auto
  have "hd ob \<noteq> []" using hd3 by auto
  then show ?thesis
    using ne mm by (simp add: calculate_bounding_box_dimensions_def Let_def vec3_of_ok)
qed

lemma verticesVectorToEigen_ok:
  assumes "list_all (\<lambda>vx. length vx = 3) ob"
  shows "\<exists>rows. verticesVectorToEigen ob = Inr rows \<and> length rows = length ob"
proof -
  have all3: "\<And>j. j < length ob \<Longrightarrow> length (ob ! j) = 3"
    using assms by (auto simp: list_all_length)
  have "\<And>m. m \<le> length ob \<Longrightarrow> \<exists>rows. for_loop [0..<m]
       (\<lambda>i rows. bindE (get_at ob i) (\<lambda>vx. bindE (vec3_of vx) (\<lambda>r. Inr (rows @ [r])))) [] = Inr rows
       \<and> length rows = m"
  proof -
    fix m show "m \<le> length ob \<Longrightarrow> \<exists>rows. for_loop [0..<m]
       (\<lambda>i rows. bindE (get_at ob i) (\<lambda>vx. bindE (vec3_of vx) (\<lambda>r. Inr (rows @ [r])))) [] = Inr rows
       \<and> length rows = m"
    proof (induction m)
      case 0 then show ?case by simp
    next
      case (Suc m)
      then obtain rows where "for_loop [0..<m]
       (\<lambda>i rows. bindE (get_at ob i) (\<lambda>vx. bindE (vec3_of vx) (\<lambda>r. Inr (rows @ [r])))) [] = Inr rows"
        "length rows = m" by auto
      then show ?case using Suc.prems all3[of m]
        by (simp add: for_loop_append vec3_of_ok)
    qed
  qed
  then show ?thesis by (simp add: verticesVectorToEigen_def)
qed

lemma calculateCentroid_ok:
  "rows \<noteq> [] \<Longrightarrow>
   calculateCentroid lm rows = Inr (vdiv (foldl vadd (0, 0, 0) rows) (lit lm (real (length rows))))"
  by (simp add: calculateCentroid_def Let_def)

lemma minCoeff_index: "snd res < i \<Longrightarrow> snd (minCoeff cs i res) < i + length cs"
proof (induction cs arbitrary: i res)
  case Nil
  then show ?case by simp
next
  case (Cons c cs)
  have "snd (if c < fst res then (c, i) else res) < Suc i"
    using Cons.prems by simp
  from Cons.IH[OF this] show ?case by simp
qed

lemma nearestObjectPoint_ok:
  assumes "rows \<noteq> []"
  shows "\<exists>j < length rows. nearestObjectPoint lm rows q = Inr (rows ! j)"
proof -
  from assms obtain r rs where rows: "rows = r # rs" by (cases rows) auto
  define j where "j = snd (minCoeff (map (\<lambda>r. norm3 lm (vsub r q)) rs) 1 (norm3 lm (vsub r q), 0))"
  have "j < 1 + length (map (\<lambda>r. norm3 lm (vsub r q)) rs)"
    unfolding j_def by (rule minCoeff_index) simp
  then have j: "j < length rows" using rows by simp
  have "nearestObjectPoint lm rows q = get_at rows j"
    using rows by (simp add: nearestObjectPoint_def Let_def j_def)
  with j show ?thesis by auto
qed

text \<open>
  Claim C7. On an empty vertex list only the bounding-box helper reports an error (and
  returns a default-constructed vector). calculateCentroid reports nothing and divides the
  zero vector by the row count zero, and nearestObjectPoint reports nothing and asks for the
  least coefficient of an empty vector: neither returns a zero result. This holds in
  every arithmetic.
\<close>

theorem geometry_helpers_empty:
  "calculate_bounding_box_dimensions ([] :: 'd::{zero,plus,minus,times,inverse,ord} list list)
     = Inr BBoxEmpty \<and>
   calculateCentroid (lm :: 'd libm) [] = Inl NotANumber \<and>
   nearestObjectPoint lm [] q = Inl EmptyMatrix"
  by (simp add: calculateCentroid_def nearestObjectPoint_def calculate_bounding_box_dimensions_def)

subsection \<open>The obstacle coupling\<close>

text \<open>A set \<open>Z\<close> of numbers that absorbs products from the left and is closed under sums:
  \<open>{0}\<close> in exact arithmetic, zero and NaN in IEEE arithmetic. Every term of the coupling
  has a coefficient of \<open>gamma\<close> as its leftmost factor.\<close>

lemma coupling_term_absorb:
  assumes mul: "\<And>z y. z \<in> Z \<Longrightarrow> z * y \<in> Z" and add: "\<And>a b. a \<in> Z \<Longrightarrow> b \<in> Z \<Longrightarrow> a + b \<in> Z"
    and g: "g \<in> Z"
  shows "coupling_term lm g R v_e theta b kd len \<in> Z \<times> Z \<times> Z"
proof -
  obtain r1 r2 r3 where R: "R = (r1, r2, r3)" by (cases R)
  obtain a1 a2 a3 where r1: "r1 = (a1, a2, a3)" by (cases r1)
  obtain b1 b2 b3 where r2: "r2 = (b1, b2, b3)" by (cases r2)
  obtain c1 c2 c3 where r3: "r3 = (c1, c2, c3)" by (cases r3)
  obtain v1 v2 v3 where v: "v_e = (v1, v2, v3)" by (cases v_e)
  have d: "\<And>p q r. p \<in> Z \<Longrightarrow> q \<in> Z \<Longrightarrow> r \<in> Z \<Longrightarrow> p * v1 + q * v2 + r * v3 \<in> Z"
    by (intro add mul)
  have m: "\<And>y. g * y \<in> Z" using g by (rule mul)
  show ?thesis
    unfolding coupling_term_def R r1 r2 r3 v
    by (simp add: mscale_def mat_vec_def vscale_def dot_def d m mul)
qed

lemma distance_term_absorb:
  assumes mul: "\<And>z y. z \<in> Z \<Longrightarrow> z * y \<in> Z" and add: "\<And>a b. a \<in> Z \<Longrightarrow> b \<in> Z \<Longrightarrow> a + b \<in> Z"
    and g: "g \<in> Z"
  shows "vscale (mat_vec (mscale g R) v_e) c \<in> Z \<times> Z \<times> Z"
proof -
  obtain r1 r2 r3 where R: "R = (r1, r2, r3)" by (cases R)
  obtain a1 a2 a3 where r1: "r1 = (a1, a2, a3)" by (cases r1)
  obtain b1 b2 b3 where r2: "r2 = (b1, b2, b3)" by (cases r2)
  obtain c1 c2 c3 where r3: "r3 = (c1, c2, c3)" by (cases r3)
  obtain v1 v2 v3 where v: "v_e = (v1, v2, v3)" by (cases v_e)
  have d: "\<And>p q r. p \<in> Z \<Longrightarrow> q \<in> Z \<Longrightarrow> r \<in> Z \<Longrightarrow> p * v1 + q * v2 + r * v3 \<in> Z"
    by (intro add mul)
  have m: "\<And>y. g * y \<in> Z" using g by (rule mul)
  show ?thesis
    unfolding R r1 r2 r3 v
    by (simp add: mscale_def mat_vec_def vscale_def dot_def d m mul)
qed

lemma vadd_absorb:
  assumes "\<And>a b. a \<in> Z \<Longrightarrow> b \<in> Z \<Longrightarrow> a + b \<in> Z" "a \<in> Z \<times> Z \<times> Z" "b \<in> Z \<times> Z \<times> Z"
  shows "vadd a b \<in> Z \<times> Z \<times> Z"
  using assms by (auto simp: vadd_def)

lemma vmul_absorb:
  assumes "\<And>z y. z \<in> Z \<Longrightarrow> z * y \<in> Z" "a \<in> Z \<times> Z \<times> Z"
  shows "vmul a b \<in> Z \<times> Z \<times> Z"
  using assms by (cases b) (auto simp: vmul_def)

lemma pad3_absorb:
  assumes "0 \<in> Z" "set gs \<subseteq> Z" "pad3 gs = Inr gs'"
  shows "set gs' \<subseteq> Z"
proof (cases "length gs < 3")
  case False
  with assms show ?thesis by (simp add: pad3_def)
next
  case True
  with assms(3) have "0 < length gs" and gs': "gs' = [gs ! 0, 0, 0]"
    by (auto simp: pad3_def bindE_eq_Inr get_at_def split: if_splits)
  then have "gs ! 0 \<in> Z" using assms(2) nth_mem by blast
  with gs' assms(1) show ?thesis by simp
qed

lemma get_at_absorb: "set gs \<subseteq> Z \<Longrightarrow> get_at gs i = Inr g \<Longrightarrow> g \<in> Z"
  by (auto simp: get_at_def split: if_splits)

lemma triple_result:
  assumes "(case T of (cx, cy, cz) \<Rightarrow> Inr (apf_ct @ [cx, cy, cz], b', g', k')) = Inr (ct, b, g, kc)"
    and "T \<in> Z \<times> Z \<times> Z"
  shows "\<exists>c1 c2 c3. ct = apf_ct @ [c1, c2, c3] \<and> c1 \<in> Z \<and> c2 \<in> Z \<and> c3 \<in> Z"
  using assms by (cases T) auto

lemma triple_result_box:
  assumes "(case dim_e of
              BBoxEmpty \<Rightarrow> Inl Uninitialised
            | BBox dims3 \<Rightarrow>
                (case dims3 of (dx, dy, dz) \<Rightarrow>
                 case vmul T (sc dx dy dz) of
                   (cx, cy, cz) \<Rightarrow> Inr (apf_ct @ [cx, cy, cz], b', g', k'))) = Inr (ct, b, g, kc)"
    and "\<And>y. vmul T y \<in> Z \<times> Z \<times> Z"
  shows "\<exists>c1 c2 c3. ct = apf_ct @ [c1, c2, c3] \<and> c1 \<in> Z \<and> c2 \<in> Z \<and> c3 \<in> Z"
proof (cases dim_e)
  case BBoxEmpty
  with assms(1) show ?thesis by simp
next
  case (BBox dims3)
  obtain dx dy dz where d: "dims3 = (dx, dy, dz)" by (cases dims3)
  have "(case vmul T (sc dx dy dz) of
      (cx, cy, cz) \<Rightarrow> Inr (apf_ct @ [cx, cy, cz], b', g', k')) = (Inr (ct, b, g, kc) :: error + _)"
    using assms(1) unfolding BBox d by simp
  then show ?thesis using assms(2) by (rule triple_result)
qed

lemma bindE_InrE:
  assumes "bindE m f = Inr y"
  obtains x where "m = Inr x" "f x = Inr y"
  using assms by (auto simp: bindE_eq_Inr)

lemma apf_absorb:
  assumes mul: "\<And>z y. z \<in> Z \<Longrightarrow> z * y \<in> Z" and add: "\<And>a b. a \<in> Z \<Longrightarrow> b \<in> Z \<Longrightarrow> a + b \<in> Z"
    and zero: "0 \<in> Z" and z: "set gamma' \<subseteq> Z"
    and r: "artificialPotentialFieldCoupling lm apf_ct x v ob beta' gamma' k' m' n' = Inr (ct, b, g, kc)"
  shows "\<exists>c1 c2 c3. ct = apf_ct @ [c1, c2, c3] \<and> c1 \<in> Z \<and> c2 \<in> Z \<and> c3 \<in> Z"
proof (cases "length ob = 1")
  case True
  have "artificialPotentialFieldCoupling lm apf_ct x v ob beta' gamma' k' m' n' = Inr (ct, b, g, kc)
      \<Longrightarrow> ?thesis"
    unfolding artificialPotentialFieldCoupling_def Let_def if_P[OF True]
    apply (elim bindE_InrE)
    apply (erule triple_result)
    apply (rule coupling_term_absorb[OF mul add]; (assumption | erule get_at_absorb[OF z]))
    done
  from this[OF r] show ?thesis .
next
  case False
  have "artificialPotentialFieldCoupling lm apf_ct x v ob beta' gamma' k' m' n' = Inr (ct, b, g, kc)
      \<Longrightarrow> ?thesis"
    unfolding artificialPotentialFieldCoupling_def Let_def if_not_P[OF False]
    apply (elim bindE_InrE)
    apply (erule triple_result_box)
    apply (rule vmul_absorb[OF mul], assumption)
    apply (rule vadd_absorb[OF add], assumption, assumption)
     apply (rule vadd_absorb[OF add], assumption, assumption)
      apply (rule coupling_term_absorb[OF mul add];
        (assumption | (erule get_at_absorb[OF pad3_absorb[OF zero z]], assumption)))
     apply (rule coupling_term_absorb[OF mul add];
        (assumption | (erule get_at_absorb[OF pad3_absorb[OF zero z]], assumption)))
    apply (rule distance_term_absorb[OF mul add];
        (assumption | (erule get_at_absorb[OF pad3_absorb[OF zero z]], assumption)))
    done
  from this[OF r] show ?thesis .
qed

lemma pad_beta_ok:
  "beta' \<noteq> [] \<Longrightarrow> \<exists>b. pad_beta beta' = Inr b \<and> 2 \<le> length b \<and> b ! 0 = beta' ! 0"
  by (auto simp: pad_beta_def)

lemma pad3_ok:
  "c \<noteq> [] \<Longrightarrow> \<exists>c'. pad3 c = Inr c' \<and> 3 \<le> length c' \<and> c' ! 0 = c ! 0"
  by (auto simp: pad3_def)

lemma apf_in_bounds:
  assumes x: "3 \<le> length x" and v: "3 \<le> length v"
    and ne: "beta' \<noteq> []" "gamma' \<noteq> []" "k' \<noteq> []"
    and ob: "wf_obstacle ob"
  shows "\<exists>ct b g kc.
      artificialPotentialFieldCoupling lm apf_ct x v ob beta' gamma' k' m' n' = Inr (apf_ct @ ct, b, g, kc) \<and>
      length ct = 3 \<and>
      (if length ob = 1 then b = beta' \<and> g = gamma' \<and> kc = k'
       else pad_beta beta' = Inr b \<and> pad3 gamma' = Inr g \<and> pad3 k' = Inr kc \<and>
            2 \<le> length b \<and> 3 \<le> length g \<and> 3 \<le> length kc)"
proof (cases "length ob = 1")
  case True
  have "length (ob ! 0) = 3"
    using ob True by (auto simp: wf_obstacle_def list_all_length)
  then show ?thesis
    using True x v ne
    unfolding artificialPotentialFieldCoupling_def Let_def
    by (auto simp: vec3_of_ok split: prod.splits)
next
  case False
  from ob have ob3: "list_all (\<lambda>vx. length vx = 3) ob" and obne: "ob \<noteq> []"
    by (simp_all add: wf_obstacle_def)
  obtain d3 where bb: "calculate_bounding_box_dimensions ob = Inr (BBox d3)"
    using bounding_box_ok[OF ob] by auto
  obtain rows where rows: "verticesVectorToEigen ob = Inr rows" "length rows = length ob"
    using verticesVectorToEigen_ok[OF ob3] by auto
  have rne: "rows \<noteq> []" using rows obne by auto
  have np: "\<And>q. \<exists>c. nearestObjectPoint lm rows q = Inr c"
    using nearestObjectPoint_ok[OF rne] by blast
  obtain b where b: "pad_beta beta' = Inr b" "2 \<le> length b"
    using pad_beta_ok[OF ne(1)] by auto
  obtain g where g: "pad3 gamma' = Inr g" "3 \<le> length g"
    using pad3_ok[OF ne(2)] by auto
  obtain kc where kc: "pad3 k' = Inr kc" "3 \<le> length kc"
    using pad3_ok[OF ne(3)] by auto
  have idx: "get_at b 0 = Inr (b ! 0)" "get_at b (Suc 0) = Inr (b ! Suc 0)"
    "get_at g 0 = Inr (g ! 0)" "get_at g (Suc 0) = Inr (g ! Suc 0)" "get_at g 2 = Inr (g ! 2)"
    "get_at kc 0 = Inr (kc ! 0)" "get_at kc (Suc 0) = Inr (kc ! Suc 0)" "get_at kc 2 = Inr (kc ! 2)"
    using b g kc by (auto simp: get_at_def)
  show ?thesis
    using False
    unfolding artificialPotentialFieldCoupling_def Let_def
    using np[of "(x ! 0, x ! 1, x ! 2)"]
    by (auto simp: vec3_of_ok[OF x] vec3_of_ok[OF v] bb rows calculateCentroid_ok[OF rne] b g kc idx
        split: prod.splits)
qed

text \<open>
  Claim C10, as stated, fails: with position and velocity of three entries and non-empty
  coefficient vectors, a point obstacle that has a single entry makes the function read
  \<open>o[0][1]\<close> past the end.
\<close>

theorem coupling_short_vertex_counterexample:
  "3 \<le> length [0, 0, 0::real] \<and> [1::real] \<noteq> [] \<and>
   artificialPotentialFieldCoupling exact_libm [] [0, 0, 0] [0, 0, 0] [[1]] [1] [1] [1] 1 1
     = Inl OutOfBounds"
  by (simp add: artificialPotentialFieldCoupling_def vec3_of_def)

lemma pad_beta_eq:
  "beta' \<noteq> [] \<Longrightarrow> pad_beta beta' = Inr b \<Longrightarrow> b = beta' @ replicate (2 - length beta') 0"
  by (cases beta'; cases "tl beta'") (auto simp: pad_beta_def split: if_splits)

lemma pad3_eq:
  "c \<noteq> [] \<Longrightarrow> length c \<noteq> 2 \<Longrightarrow> pad3 c = Inr c' \<Longrightarrow> c' = c @ replicate (3 - length c) 0"
  by (cases c; cases "tl c") (auto simp: pad3_def numeral_3_eq_3 Suc_le_eq split: if_splits)

lemma pad3_two: "pad3 [1, 2 :: real] = Inr [1, 0, 0]"
  by (simp add: pad3_def)

text \<open>
  Claim C10, amended. When the position and velocity vectors have at least 3 entries, the
  vectors \<open>beta\<close>, \<open>gamma\<close> and \<open>k\<close> are non-empty and the obstacle is a non-empty list of
  vertices of 3 entries each, no read inside artificialPotentialFieldCoupling is out of
  bounds: the call returns three more coefficients. The point-obstacle branch reads only
  index 0 of each coefficient vector and leaves the vectors as they are. The vertex-list
  branch reads indices 1 and 2 only once \<open>beta\<close> has at least 2 entries and \<open>gamma\<close> and \<open>k\<close> at
  least 3: \<open>beta\<close> is padded with trailing zeros, and so are \<open>gamma\<close> and \<open>k\<close> unless they have
  exactly 2 entries.
\<close>

theorem coupling_in_bounds:
  assumes "3 \<le> length x" "3 \<le> length v" "beta' \<noteq> []" "gamma' \<noteq> []" "k' \<noteq> []"
    and "wf_obstacle ob"
  shows "\<exists>ct b g kc.
      artificialPotentialFieldCoupling lm apf_ct x v ob beta' gamma' k' m' n' = Inr (apf_ct @ ct, b, g, kc) \<and>
      length ct = 3 \<and>
      (if length ob = 1 then b = beta' \<and> g = gamma' \<and> kc = k'
       else 2 \<le> length b \<and> 3 \<le> length g \<and> 3 \<le> length kc \<and>
            b = beta' @ replicate (2 - length beta') 0 \<and>
            (length gamma' \<noteq> 2 \<longrightarrow> g = gamma' @ replicate (3 - length gamma') 0) \<and>
            (length k' \<noteq> 2 \<longrightarrow> kc = k' @ replicate (3 - length k') 0))"
proof -
  from apf_in_bounds[OF assms, of lm apf_ct m' n'] obtain ct b g kc where
    r: "artificialPotentialFieldCoupling lm apf_ct x v ob beta' gamma' k' m' n' = Inr (apf_ct @ ct, b, g, kc)"
      "length ct = 3"
    and c: "if length ob = 1 then b = beta' \<and> g = gamma' \<and> kc = k'
       else pad_beta beta' = Inr b \<and> pad3 gamma' = Inr g \<and> pad3 k' = Inr kc \<and>
            2 \<le> length b \<and> 3 \<le> length g \<and> 3 \<le> length kc"
    by blast
  show ?thesis
  proof (cases "length ob = 1")
    case True
    with r c show ?thesis by auto
  next
    case False
    with c have p: "pad_beta beta' = Inr b" "pad3 gamma' = Inr g" "pad3 k' = Inr kc"
      and l: "2 \<le> length b" "3 \<le> length g" "3 \<le> length kc" by auto
    have "b = beta' @ replicate (2 - length beta') 0"
      using assms(3) p(1) by (rule pad_beta_eq)
    moreover have "length gamma' \<noteq> 2 \<longrightarrow> g = gamma' @ replicate (3 - length gamma') 0"
      using assms(4) p(2) by (auto intro: pad3_eq)
    moreover have "length k' \<noteq> 2 \<longrightarrow> kc = k' @ replicate (3 - length k') 0"
      using assms(5) p(3) by (auto intro: pad3_eq)
    ultimately show ?thesis using False r l by auto
  qed
qed

theorem coupling_in_bounds_witness:
  "3 \<le> length [0, 0, 0::real] \<and> 3 \<le> length [1, 0, 0::real] \<and> [1::real] \<noteq> [] \<and> [0::real] \<noteq> [] \<and>
   wf_obstacle [[1, 1, 0], [2, 1, 0::real]] \<and>
   (\<exists>ct b g kc.
      artificialPotentialFieldCoupling exact_libm [] [0, 0, 0] [1, 0, 0] [[1, 1, 0], [2, 1, 0]]
          [1] [0] [1] 1 1 = Inr ([] @ ct, b, g, kc) \<and> length ct = 3 \<and> b = [1, 0] \<and> g = [0, 0, 0] \<and> kc = [1, 0, 0])"
proof -
  have h: "3 \<le> length [0, 0, 0::real]" "3 \<le> length [1, 0, 0::real]" "[1::real] \<noteq> []"
    "[0::real] \<noteq> []" "[1::real] \<noteq> []" "wf_obstacle [[1, 1, 0], [2, 1, 0::real]]"
    by (simp_all add: wf_obstacle_def)
  from coupling_in_bounds [OF h, of exact_libm "[]" 1 1] h show ?thesis
    by (auto simp: numeral_3_eq_3 numeral_2_eq_2 split: if_splits)
qed

subsection \<open>planCallback\<close>

lemma planCallback_obstacle_small:
  "length req < 3 \<Longrightarrow> planCallback_obstacle req = Inr []"
  "length req = 3 \<Longrightarrow> planCallback_obstacle req = Inr [req]"
  by (simp_all add: planCallback_obstacle_def)

lemma obstacle_loop_multiple:
  "i \<le> length req \<Longrightarrow> 3 dvd (length req - i) \<Longrightarrow>
   obstacle_loop req i ob =
     Inr (ob @ map (\<lambda>j. [req ! (i + 3 * j), req ! (i + 3 * j + 1), req ! (i + 3 * j + 2)])
                 [0..<(length req - i) div 3])"
proof (induction req i ob rule: obstacle_loop.induct)
  case (1 req i ob)
  show ?case
  proof (cases "i < length req")
    case False
    then show ?thesis using "1.prems" by (subst obstacle_loop.simps) simp
  next
    case True
    obtain q where q: "length req - i = 3 * q" using "1.prems"(2) by (auto simp: dvd_def)
    with True have q0: "0 < q" by (cases q) auto
    then have le: "i + 3 \<le> length req" using q by linarith
    have q': "length req - (i + 3) = 3 * (q - 1)" using q q0 by simp
    then have d: "3 dvd (length req - (i + 3))" by simp
    have dv: "(length req - i) div 3 = Suc (q - 1)" "(length req - (i + 3)) div 3 = q - 1"
      using q q' q0 by auto
    have r: "obstacle_loop req (i + 3) (ob @ [[req ! i, req ! (i + 1), req ! (i + 2)]]) =
      Inr ((ob @ [[req ! i, req ! (i + 1), req ! (i + 2)]]) @
           map (\<lambda>j. [req ! (i + 3 + 3 * j), req ! (i + 3 + 3 * j + 1), req ! (i + 3 + 3 * j + 2)])
                 [0..<(length req - (i + 3)) div 3])"
      using "1.IH"[OF True le d] .
    have m: "map (\<lambda>j. [req ! (i + 3 * j), req ! (i + 3 * j + 1), req ! (i + 3 * j + 2)]) [0..<Suc (q - 1)] =
       [req ! i, req ! (i + 1), req ! (i + 2)] #
       map (\<lambda>j. [req ! (i + 3 + 3 * j), req ! (i + 3 + 3 * j + 1), req ! (i + 3 + 3 * j + 2)]) [0..<q - 1]"
      unfolding upt_conv_Cons[OF zero_less_Suc] map_Suc_upt[symmetric]
      by (simp add: algebra_simps)
    have unfold: "obstacle_loop req i ob =
        obstacle_loop req (i + 3) (ob @ [[req ! i, req ! (i + 1), req ! (i + 2)]])"
      using True le by (subst obstacle_loop.simps) (simp add: get_at_def)
    show ?thesis
      unfolding unfold r dv m by simp
  qed
qed

lemma planCallback_obstacle_multiple:
  "3 < length req \<Longrightarrow> 3 dvd length req \<Longrightarrow>
   planCallback_obstacle req =
     Inr (map (\<lambda>j. [req ! (3 * j), req ! (3 * j + 1), req ! (3 * j + 2)]) [0..<length req div 3])"
  using obstacle_loop_multiple[of 0 req "[]"] by (simp add: planCallback_obstacle_def)

lemma obstacle_loop_short:
  assumes "i < length req" "length req < i + 3"
  shows "obstacle_loop req i ob = Inl OutOfBounds"
  using assms by (subst obstacle_loop.simps) (auto simp: get_at_def bindE_def)

lemma obstacle_loop_not_multiple:
  "i \<le> length req \<Longrightarrow> \<not> 3 dvd (length req - i) \<Longrightarrow> obstacle_loop req i ob = Inl OutOfBounds"
proof (induction req i ob rule: obstacle_loop.induct)
  case (1 req i ob)
  have lt: "i < length req" using "1.prems" by (cases "i = length req") auto
  show ?case
  proof (cases "length req < i + 3")
    case True
    with lt show ?thesis by (rule obstacle_loop_short)
  next
    case False
    then have le: "i + 3 \<le> length req" by simp
    have nd: "\<not> 3 dvd (length req - (i + 3))"
      using "1.prems"(2) le
      by (metis add.commute diff_diff_left dvd_add_triv_right_iff le_add_diff_inverse2 le_diff_conv2 add_leE)
    have rec: "obstacle_loop req (i + 3) (ob @ [[req ! i, req ! (i + 1), req ! (i + 2)]]) = Inl OutOfBounds"
      using "1.IH"[OF lt le nd] .
    show ?thesis
      using lt le rec by (subst obstacle_loop.simps) simp
  qed
qed

lemma planCallback_obstacle_not_multiple:
  "3 < length req \<Longrightarrow> \<not> 3 dvd length req \<Longrightarrow> planCallback_obstacle req = Inl OutOfBounds"
  by (simp add: planCallback_obstacle_def obstacle_loop_not_multiple)

text \<open>
  Claim C5. A flat obstacle list of fewer than 3 scalars is no obstacle, one of exactly 3
  scalars is a point and one whose length is a multiple of 3 above 3 is a vertex list (the
  three lemmas above). A list of more than 3 scalars whose length is not a multiple of 3 is
  not treated as absent: the loop of planCallback builds a last vertex from entries past the
  end of the list, here for 4 scalars.
\<close>

theorem planCallback_obstacle_four:
  "planCallback_obstacle [1, 2, 3, 4 :: real] = Inl OutOfBounds"
  by (simp add: planCallback_obstacle_def obstacle_loop.simps)
subsection \<open>One iteration of the planning loop\<close>

lemma plan_body_Inr:
  assumes "plan_body lm evalAt p s = Inr s'"
  obtains apf_ct b g kc vecs ag where
    "plan_coupling lm p s = Inr (apf_ct, b, g, kc)"
    "for_loop [0..<dims_of p] (plan_dim lm evalAt p s apf_ct) (x_vecs s, x_dot_vecs s) = Inr vecs"
    "(if cur_t s + total_dt p + t_0 p \<ge> tau p
      then for_loop [0..<dims_of p] (goal_check p (fst vecs) (n_pts s + 1)) True
      else Inr (at_goal s)) = Inr ag"
    "s' = \<lparr>cur_t = cur_t s + total_dt p, n_pts = n_pts s + 1, at_goal = ag,
           seg_end = (if seg_length p > 0 then (if cur_t s > seg_length p then True else seg_end s)
                      else seg_end s),
           x_vecs = fst vecs, x_dot_vecs = snd vecs, t_vec = t_vec s @ [cur_t s + total_dt p],
           cur_beta = b, cur_gamma = g, cur_k = kc\<rparr>"
  using assms unfolding plan_body_def Let_def
  by (auto simp: bindE_eq_Inr)

lemma plan_body_fields:
  assumes "plan_body lm evalAt p s = Inr s'"
  shows "cur_t s' = cur_t s + total_dt p" "n_pts s' = n_pts s + 1"
    "t_vec s' = t_vec s @ [cur_t s + total_dt p]"
  using assms by (auto elim!: plan_body_Inr)

lemma goal_check_loop:
  "for_loop [0..<m] (goal_check p xs n') ag0 = Inr ag \<Longrightarrow>
   ag = (ag0 \<and> (\<forall>i<m. goal_thresh p ! i > 0 \<longrightarrow> \<not> \<bar>xs ! i ! (n' - 1) - goal p ! i\<bar> > goal_thresh p ! i))"
proof (induction m arbitrary: ag)
  case 0
  then show ?case by simp
next
  case (Suc m)
  from Suc.prems obtain ag1 where
    l: "for_loop [0..<m] (goal_check p xs n') ag0 = Inr ag1" and
    c: "goal_check p xs n' m ag1 = Inr ag"
    by (auto simp: for_loop_append bindE_eq_Inr)
  have ag1: "ag1 = (ag0 \<and> (\<forall>i<m. goal_thresh p ! i > 0 \<longrightarrow> \<not> \<bar>xs ! i ! (n' - 1) - goal p ! i\<bar> > goal_thresh p ! i))"
    using Suc.IH[OF l] .
  have "ag = (ag1 \<and> (goal_thresh p ! m > 0 \<longrightarrow> \<not> \<bar>xs ! m ! (n' - 1) - goal p ! m\<bar> > goal_thresh p ! m))"
    using c unfolding goal_check_def
    by (auto simp: bindE_eq_Inr get_at_def split: if_splits)
  with ag1 show ?case
    by (auto simp: less_Suc_eq)
qed

lemma plan_body_at_goal:
  assumes "plan_body lm evalAt p s = Inr s'"
  shows "at_goal s' =
     (if cur_t s' + t_0 p \<ge> tau p
      then (\<forall>i<dims_of p. goal_thresh p ! i > 0 \<longrightarrow>
              \<not> \<bar>x_vecs s' ! i ! (n_pts s' - 1) - goal p ! i\<bar> > goal_thresh p ! i)
      else at_goal s)"
  using assms
  by (elim plan_body_Inr) (auto split: if_splits dest!: goal_check_loop)

lemma plan_dim_Inr:
  assumes "plan_dim lm evalAt p s apf_ct i (xs, xds) = Inr vecs'"
  obtains x v where "i < length xs" "i < length xds"
    "vecs' = (xs[i := xs ! i @ [x]], xds[i := xds ! i @ [v / tau p]])"
  using assms unfolding plan_dim_def
  by (auto simp: bindE_eq_Inr get_at_def split: if_splits)

lemma plan_dims_shape:
  assumes "for_loop [0..<m] (plan_dim lm evalAt p s apf_ct) (xs, xds) = Inr (xs', xds')"
  shows "length xs' = length xs \<and> length xds' = length xds \<and>
     (\<forall>i<m. length (xs' ! i) = length (xs ! i) + 1 \<and> length (xds' ! i) = length (xds ! i) + 1) \<and>
     (\<forall>i\<ge>m. xs' ! i = xs ! i \<and> xds' ! i = xds ! i)"
  using assms
proof (induction m arbitrary: xs' xds')
  case 0
  then show ?case by simp
next
  case (Suc m)
  from Suc.prems obtain xs1 xds1 where
    l: "for_loop [0..<m] (plan_dim lm evalAt p s apf_ct) (xs, xds) = Inr (xs1, xds1)" and
    d: "plan_dim lm evalAt p s apf_ct m (xs1, xds1) = Inr (xs', xds')"
    by (auto simp: for_loop_append bindE_eq_Inr)
  note IH = Suc.IH[OF l]
  from d obtain x v where m: "m < length xs1" "m < length xds1"
    and eq: "xs' = xs1[m := xs1 ! m @ [x]]" "xds' = xds1[m := xds1 ! m @ [v / tau p]]"
    by (elim plan_dim_Inr) auto
  show ?case
    using IH m unfolding eq
    by (auto simp: less_Suc_eq nth_list_update)
qed

lemma shape_init: "shape p (plan_init p)"
  by (simp add: shape_def plan_init_def)

lemma shape_body:
  assumes "plan_body lm evalAt p s = Inr s'" "shape p s"
  shows "shape p s'"
proof -
  from assms(1) obtain apf_ct vecs where
    l: "for_loop [0..<dims_of p] (plan_dim lm evalAt p s apf_ct) (x_vecs s, x_dot_vecs s) = Inr vecs"
    and s': "x_vecs s' = fst vecs" "x_dot_vecs s' = snd vecs" "n_pts s' = n_pts s + 1"
      "t_vec s' = t_vec s @ [cur_t s + total_dt p]"
    by (elim plan_body_Inr) auto
  from plan_dims_shape[of "dims_of p" lm evalAt p s apf_ct "x_vecs s" "x_dot_vecs s" "fst vecs" "snd vecs"] l
  show ?thesis
    using assms(2) unfolding shape_def s' by auto
qed

lemma shape_reach: "plan_reach lm evalAt p s \<Longrightarrow> shape p s"
  by (induction rule: plan_reach.induct) (auto intro: shape_init shape_body)

subsection \<open>Every iteration succeeds on a well-formed request\<close>











subsection \<open>The transformation system\<close>

lemma substep_spec:
  assumes "substep lm evalAt p s apf_ct i iter xv = Inr xv'"
  shows "xv' = euler_spec lm evalAt p i (apf_ct ! i) (cur_t s) iter xv"
  using assms unfolding substep_def euler_spec_def v_dot_spec_def f_eval_spec_def Let_def
  by (cases xv) (auto simp: bindE_eq_Inr get_at_def split: if_splits)

lemma substeps_spec:
  "for_loop js (substep lm evalAt p s apf_ct i) xv = Inr xv' \<Longrightarrow>
   xv' = fold (euler_spec lm evalAt p i (apf_ct ! i) (cur_t s)) js xv"
proof (induction js arbitrary: xv)
  case Nil
  then show ?case by simp
next
  case (Cons j js)
  from Cons.prems obtain xv1 where
    a: "substep lm evalAt p s apf_ct i j xv = Inr xv1" and
    b: "for_loop js (substep lm evalAt p s apf_ct i) xv1 = Inr xv'"
    by (auto simp: bindE_eq_Inr)
  from Cons.IH[OF b] substep_spec[OF a] show ?case by simp
qed

lemma plan_start_spec:
  assumes "plan_start p s (xs, xds) i = Inr xv" "xs ! i = x_vecs s ! i" "xds ! i = x_dot_vecs s ! i"
    and "n_pts s \<noteq> 0 \<longrightarrow> length (x_vecs s ! i) = n_pts s \<and> length (x_dot_vecs s ! i) = n_pts s"
  shows "xv = step_start p s i"
proof (cases "n_pts s = 0")
  case True
  with assms(1) show ?thesis
    by (auto simp: plan_start_def step_start_def bindE_eq_Inr get_at_def split: if_splits)
next
  case False
  with assms(4) have l: "length (x_vecs s ! i) = n_pts s" "length (x_dot_vecs s ! i) = n_pts s"
    by auto
  with False have ne: "x_vecs s ! i \<noteq> []" "x_dot_vecs s ! i \<noteq> []" by auto
  have "last (x_vecs s ! i) = x_vecs s ! i ! (n_pts s - 1)"
    "last (x_dot_vecs s ! i) = x_dot_vecs s ! i ! (n_pts s - 1)"
    using ne l by (simp_all add: last_conv_nth)
  with assms(1,2,3) False show ?thesis
    by (auto simp: plan_start_def step_start_def bindE_eq_Inr get_at_def split: if_splits)
qed

lemma plan_dim_spec:
  assumes "plan_dim lm evalAt p s apf_ct i (xs, xds) = Inr (xs', xds')"
  obtains xv where "plan_start p s (xs, xds) i = Inr xv" "i < length xs" "i < length xds"
    "xs' = xs[i := xs ! i @
       [fst (fold (euler_spec lm evalAt p i (apf_ct ! i) (cur_t s)) [0..<nat (integrate_iter p)] xv)]]"
    "xds' = xds[i := xds ! i @
       [snd (fold (euler_spec lm evalAt p i (apf_ct ! i) (cur_t s)) [0..<nat (integrate_iter p)] xv)
          / tau p]]"
proof -
  from assms obtain xv xv' where
    st: "plan_start p s (xs, xds) i = Inr xv" and
    lp: "for_loop [0..<nat (integrate_iter p)] (substep lm evalAt p s apf_ct i) xv = Inr xv'" and
    i: "i < length xs" "i < length xds" and
    eq: "xs' = xs[i := xs ! i @ [fst xv']]" "xds' = xds[i := xds ! i @ [snd xv' / tau p]]"
    unfolding plan_dim_def
    by (auto simp: bindE_eq_Inr get_at_def split: if_splits)
  from substeps_spec[OF lp] st i eq that show ?thesis by simp
qed

lemma plan_dims_spec:
  assumes "for_loop [0..<m] (plan_dim lm evalAt p s apf_ct) (xs, xds) = Inr (xs', xds')"
  shows "\<forall>i<m. \<exists>xv. plan_start p s (xs, xds) i = Inr xv \<and> i < length xs \<and> i < length xds \<and>
      xs' ! i = xs ! i @
        [fst (fold (euler_spec lm evalAt p i (apf_ct ! i) (cur_t s)) [0..<nat (integrate_iter p)] xv)] \<and>
      xds' ! i = xds ! i @
        [snd (fold (euler_spec lm evalAt p i (apf_ct ! i) (cur_t s)) [0..<nat (integrate_iter p)] xv)
           / tau p]"
  using assms
proof (induction m arbitrary: xs' xds')
  case 0
  then show ?case by simp
next
  case (Suc m)
  from Suc.prems obtain xs1 xds1 where
    l: "for_loop [0..<m] (plan_dim lm evalAt p s apf_ct) (xs, xds) = Inr (xs1, xds1)" and
    d: "plan_dim lm evalAt p s apf_ct m (xs1, xds1) = Inr (xs', xds')"
    by (auto simp: for_loop_append bindE_eq_Inr)
  note IH = Suc.IH[OF l]
  from plan_dims_shape[OF l] have
    len: "length xs1 = length xs" "length xds1 = length xds" and
    same: "xs1 ! m = xs ! m" "xds1 ! m = xds ! m"
    by auto
  from d obtain xv where
    st: "plan_start p s (xs1, xds1) m = Inr xv" and
    m: "m < length xs1" "m < length xds1" and
    eq: "xs' = xs1[m := xs1 ! m @
       [fst (fold (euler_spec lm evalAt p m (apf_ct ! m) (cur_t s)) [0..<nat (integrate_iter p)] xv)]]"
      "xds' = xds1[m := xds1 ! m @
       [snd (fold (euler_spec lm evalAt p m (apf_ct ! m) (cur_t s)) [0..<nat (integrate_iter p)] xv)
          / tau p]]"
    by (rule plan_dim_spec)
  have g: "get_at xs1 m = get_at xs m" "get_at xds1 m = get_at xds m"
    using m len same by (simp_all add: get_at_def)
  have "plan_start p s (xs, xds) m = plan_start p s (xs1, xds1) m"
    by (simp add: plan_start_def g)
  with st have st': "plan_start p s (xs, xds) m = Inr xv"
    by simp
  show ?case
  proof (intro allI impI)
    fix i assume "i < Suc m"
    then consider "i < m" | "i = m" by linarith
    then show "\<exists>xv. plan_start p s (xs, xds) i = Inr xv \<and> i < length xs \<and> i < length xds \<and>
      xs' ! i = xs ! i @
        [fst (fold (euler_spec lm evalAt p i (apf_ct ! i) (cur_t s)) [0..<nat (integrate_iter p)] xv)] \<and>
      xds' ! i = xds ! i @
        [snd (fold (euler_spec lm evalAt p i (apf_ct ! i) (cur_t s)) [0..<nat (integrate_iter p)] xv)
           / tau p]"
    proof cases
      case 1
      with IH show ?thesis unfolding eq by (auto simp: nth_list_update)
    next
      case 2
      with st' m len same show ?thesis unfolding eq by simp
    qed
  qed
qed

text \<open>
  Claim C2. In every iteration of the planning loop of generatePlan and for every
  dimension \<open>i\<close>, the point that the iteration appends is the result of \<open>integrate_iter\<close>
  sub-steps, for \<open>iter = 0, 1, \<dots>\<close>, each of which replaces the position \<open>x\<close> by
  \<open>x + v / tau * dt\<close> and the scaled velocity \<open>v\<close> by \<open>v + v_dot * dt\<close> with
  \<open>v_dot = (k_gain * ((goal - x) - (goal - x_0) * s + f_eval) - d_gain * v + coupling) / tau\<close>,
  \<open>s = phase (t + t_0 + dt * iter, tau)\<close> and \<open>f_eval\<close> the approximator at \<open>(t + t_0) / tau\<close>
  times \<open>s\<close>, or zero when \<open>(t + t_0) / tau \<ge> 1\<close> (\<open>v_dot_spec\<close>, \<open>f_eval_spec\<close>); \<open>t\<close> is the
  elapsed time before the iteration and \<open>coupling\<close> the coefficient \<open>i\<close> of the obstacle
  coupling. The sub-steps start from the initial state or from the last planned point, and
  the velocity is stored divided by \<open>tau\<close>. This holds in every arithmetic, each operation
  being the program's own.
\<close>

theorem substep_velocity_update:
  assumes "plan_reach lm evalAt p s" "plan_cond lm p s"
    and "plan_body lm evalAt p s = Inr s'"
    and "plan_coupling lm p s = Inr (apf_ct, b, g, kc)"
    and "i < dims_of p"
  shows "(last (x_vecs s' ! i), last (x_dot_vecs s' ! i)) =
     (case fold (euler_spec lm evalAt p i (apf_ct ! i) (cur_t s)) [0..<nat (integrate_iter p)]
             (step_start p s i) of
        (x', v') \<Rightarrow> (x', v' / tau p))"
proof -
  from assms(3,4) obtain vecs where
    l: "for_loop [0..<dims_of p] (plan_dim lm evalAt p s apf_ct) (x_vecs s, x_dot_vecs s) = Inr vecs"
    and s': "x_vecs s' = fst vecs" "x_dot_vecs s' = snd vecs"
    by (elim plan_body_Inr) auto
  from l have l': "for_loop [0..<dims_of p] (plan_dim lm evalAt p s apf_ct) (x_vecs s, x_dot_vecs s)
      = Inr (x_vecs s', x_dot_vecs s')"
    by (simp add: s')
  from plan_dims_spec[OF l'] assms(5) obtain xv where
    st: "plan_start p s (x_vecs s, x_dot_vecs s) i = Inr xv" and
    x: "x_vecs s' ! i = x_vecs s ! i @
        [fst (fold (euler_spec lm evalAt p i (apf_ct ! i) (cur_t s)) [0..<nat (integrate_iter p)] xv)]"
    and v: "x_dot_vecs s' ! i = x_dot_vecs s ! i @
        [snd (fold (euler_spec lm evalAt p i (apf_ct ! i) (cur_t s)) [0..<nat (integrate_iter p)] xv)
           / tau p]"
    by blast
  have "shape p s" using assms(1) by (rule shape_reach)
  with assms(5) have "length (x_vecs s ! i) = n_pts s \<and> length (x_dot_vecs s ! i) = n_pts s"
    by (simp add: shape_def)
  with st have "xv = step_start p s i"
    by (intro plan_start_spec[where xs = "x_vecs s" and xds = "x_dot_vecs s"]) simp_all
  then show ?thesis
    unfolding x v by (simp add: case_prod_beta)
qed

subsection \<open>The states of the loop\<close>



text \<open>The time stamps: \<open>total_dt\<close> is added to the elapsed time once per iteration, in the
  arithmetic of the program.\<close>

lemma reach_stamps:
  "plan_reach lm evalAt p s \<Longrightarrow>
   cur_t s = stamp (total_dt p) (n_pts s) \<and>
   t_vec s = map (\<lambda>j. stamp (total_dt p) (Suc j)) [0..<n_pts s]"
proof (induction rule: plan_reach.induct)
  case (reach_init lm evalAt p)
  then show ?case by (simp add: plan_init_def)
next
  case (reach_step lm evalAt p s s')
  from plan_body_fields[OF reach_step.hyps(3)] reach_step.IH show ?case
    by simp
qed

text \<open>The flag \<open>at_goal\<close> as the loop computes it, in every arithmetic in which \<open>b \<le> a\<close>
  excludes \<open>a < b\<close>: the goal test is the negation of \<^verbatim>\<open>fabs(x - goal) > goal_thresh\<close>.\<close>

lemma reach_at_goal:
  assumes ord: "\<And>a b :: 'd::{zero,plus,minus,uminus,times,inverse,ord,abs}. b \<le> a \<Longrightarrow> \<not> a < b"
  shows "plan_reach lm evalAt p s \<Longrightarrow> at_goal s \<longrightarrow> tau p \<le> cur_t s + t_0 (p :: 'd plan_request)"
proof (induction rule: plan_reach.induct)
  case (reach_init lm evalAt p)
  then show ?case by (simp add: plan_init_def)
next
  case (reach_step lm evalAt p s s')
  have "\<not> at_goal s"
    using reach_step.IH reach_step.hyps(2) ord by (auto simp: plan_cond_def)
  then show ?case
    using plan_body_at_goal[OF reach_step.hyps(3)] by (auto split: if_splits)
qed

lemma reach_not_at_goal:
  assumes "\<And>a b :: 'd::{zero,plus,minus,uminus,times,inverse,ord,abs}. b \<le> a \<Longrightarrow> \<not> a < b"
    and "plan_reach lm evalAt (p :: 'd plan_request) s" "plan_cond lm p s"
  shows "\<not> at_goal s"
  using reach_at_goal[OF assms(1,2)] assms(1,3) by (auto simp: plan_cond_def)

lemma at_goal_code:
  assumes ord: "\<And>a b :: 'd::{zero,plus,minus,uminus,times,inverse,ord,abs}. b \<le> a \<Longrightarrow> \<not> a < b"
    and "plan_reach lm evalAt (p :: 'd plan_request) s" "0 < n_pts s"
  shows "at_goal s = (tau p \<le> cur_t s + t_0 p \<and>
     (\<forall>i<dims_of p. goal_thresh p ! i > 0 \<longrightarrow>
         \<not> \<bar>last (x_vecs s ! i) - goal p ! i\<bar> > goal_thresh p ! i))"
  using assms(2,3)
proof (induction rule: plan_reach.induct)
  case (reach_init lm evalAt p)
  then show ?case by (simp add: plan_init_def)
next
  case (reach_step lm evalAt p s s')
  have na: "\<not> at_goal s"
    using ord reach_step.hyps(1,2) by (rule reach_not_at_goal)
  have sh: "shape p s'"
    using reach_step.hyps by (auto intro: shape_body shape_reach)
  have n': "0 < n_pts s'"
    using plan_body_fields(2)[OF reach_step.hyps(3)] by simp
  have "x_vecs s' ! i ! (n_pts s' - 1) = last (x_vecs s' ! i)" if "i < dims_of p" for i
  proof -
    have len: "length (x_vecs s' ! i) = n_pts s'"
      using sh that by (simp add: shape_def)
    then have "x_vecs s' ! i \<noteq> []" using n' by auto
    then show ?thesis using len by (simp add: last_conv_nth)
  qed
  then show ?case
    using plan_body_at_goal[OF reach_step.hyps(3)] na by (auto split: if_splits)
qed

subsection \<open>The returned plan\<close>

lemma plan_while_reach_aux:
  assumes "plan_while lm evalAt p s = Some y"
  shows "plan_reach lm evalAt p s \<longrightarrow>
     (case y of Inl e \<Rightarrow> True | Inr r \<Rightarrow> plan_reach lm evalAt p r \<and> \<not> plan_cond lm p r)"
proof (rule plan_while.raw_induct[where P = "\<lambda>lm evalAt p s y. plan_reach lm evalAt p s \<longrightarrow>
     (case y of Inl e \<Rightarrow> True | Inr r \<Rightarrow> plan_reach lm evalAt p r \<and> \<not> plan_cond lm p r)", OF _ assms])
  fix plan_while' :: "'a libm \<Rightarrow> ('a list \<Rightarrow> 'a \<Rightarrow> 'a) \<Rightarrow> 'a plan_request \<Rightarrow> 'a plan_state \<Rightarrow>
      (error + 'a plan_state) option"
    and lm evalAt p s y
  assume IH: "\<And>lm evalAt p s y. plan_while' lm evalAt p s = Some y \<Longrightarrow> plan_reach lm evalAt p s \<longrightarrow>
       (case y of Inl e \<Rightarrow> True | Inr r \<Rightarrow> plan_reach lm evalAt p r \<and> \<not> plan_cond lm p r)"
    and eq: "(if plan_cond lm p s
        then case plan_body lm evalAt p s of Inl e \<Rightarrow> Some (Inl e) | Inr s' \<Rightarrow> plan_while' lm evalAt p s'
        else Some (Inr s)) = Some y"
  show "plan_reach lm evalAt p s \<longrightarrow>
     (case y of Inl e \<Rightarrow> True | Inr r \<Rightarrow> plan_reach lm evalAt p r \<and> \<not> plan_cond lm p r)"
  proof
    assume reach: "plan_reach lm evalAt p s"
    show "case y of Inl e \<Rightarrow> True | Inr r \<Rightarrow> plan_reach lm evalAt p r \<and> \<not> plan_cond lm p r"
    proof (cases "plan_cond lm p s")
      case False
      with eq reach show ?thesis by auto
    next
      case True
      show ?thesis
      proof (cases "plan_body lm evalAt p s")
        case (Inl e)
        with True eq show ?thesis by auto
      next
        case (Inr s')
        with True eq have w: "plan_while' lm evalAt p s' = Some y" by simp
        have "plan_reach lm evalAt p s'"
          using reach True Inr by (rule reach_step)
        with IH[OF w] show ?thesis by simp
      qed
    qed
  qed
qed

lemma plan_while_reach:
  assumes "plan_while lm evalAt p s = Some (Inr r)" "plan_reach lm evalAt p s"
  shows "plan_reach lm evalAt p r \<and> \<not> plan_cond lm p r"
  using plan_while_reach_aux[OF assms(1)] assms(2) by simp

lemma generatePlan_Some:
  assumes "generatePlan lm evalAt p = Some (Inr (plan, ag))"
  obtains r where "plan_reach lm evalAt p r" "\<not> plan_cond lm p r" "plan = make_plan p r" "ag = at_goal r"
proof -
  from assms obtain r where w: "plan_while lm evalAt p (plan_init p) = Some (Inr r)"
    and eq: "plan = make_plan p r" "ag = at_goal r"
    by (auto simp: generatePlan_def split: option.splits sum.splits)
  from plan_while_reach[OF w reach_init] have "plan_reach lm evalAt p r" "\<not> plan_cond lm p r"
    by simp_all
  with eq that show ?thesis by blast
qed


lemma init_cond: "0 < lit lm 1000 \<Longrightarrow> plan_cond lm p (plan_init p)"
  by (simp add: plan_cond_def plan_init_def MAX_PLAN_LENGTH_def)




subsection \<open>Exact arithmetic: termination and the length of the plan\<close>

lemma exact_ord: "b \<le> a \<Longrightarrow> \<not> a < (b::real)"
  by simp

lemma stamp_exact: "stamp dt n = real n * (dt::real)"
  by (induction n) (simp_all add: algebra_simps)

lemma exact_init_cond: "plan_cond exact_libm p (plan_init p)"
  by (rule init_cond) simp

lemma reach_time:
  "plan_reach exact_libm evalAt p s \<Longrightarrow>
   cur_t s = real (n_pts s) * total_dt p \<and>
   t_vec s = map (\<lambda>j. (real j + 1) * total_dt p) [0..<n_pts s]"
  using reach_stamps[of exact_libm evalAt p s] by (simp add: stamp_exact algebra_simps)





text \<open>In exact arithmetic the goal test of the loop is the one of the specification: after
  every iteration \<open>at_goal\<close> holds exactly when \<open>t + t_0 \<ge> tau\<close> and every dimension with a
  positive threshold has its last planned position within the threshold of the goal.\<close>

lemma at_goal_iff_exact:
  assumes "plan_reach exact_libm evalAt p s" "0 < n_pts s"
  shows "at_goal s = (tau p \<le> cur_t s + t_0 p \<and> within_thresholds p s)"
  using at_goal_code[OF exact_ord assms] by (auto simp: within_thresholds_def not_less)


lemma rest_body:
  "plan_body exact_libm zero_approx rest_request (plan_init rest_request) =
     Inr \<lparr>cur_t = 1, n_pts = 1, at_goal = True, seg_end = False, x_vecs = [[10]],
          x_dot_vecs = [[0]], t_vec = [1], cur_beta = [], cur_gamma = [], cur_k = []\<rparr>"
  by (simp add: plan_body_def plan_init_def rest_request_def plan_coupling_def dims_of_def
      plan_dim_def plan_start_def substep_def step_dt_def zero_approx_def goal_check_def Let_def)

lemma rest_plan:
  "generatePlan exact_libm zero_approx rest_request =
     Some (Inr (\<lparr>points = [\<lparr>positions = [10], velocities = [0]\<rparr>], times = [1]\<rparr>, True))"
proof -
  have c0: "plan_cond exact_libm rest_request (plan_init rest_request)" by (rule exact_init_cond)
  have c1: "\<not> plan_cond exact_libm rest_request \<lparr>cur_t = 1, n_pts = 1, at_goal = True, seg_end = False, x_vecs = [[10]],
          x_dot_vecs = [[0]], t_vec = [1], cur_beta = [], cur_gamma = [], cur_k = []\<rparr>"
    by (simp add: plan_cond_def rest_request_def)
  have "plan_while exact_libm zero_approx rest_request (plan_init rest_request) =
     Some (Inr \<lparr>cur_t = 1, n_pts = 1, at_goal = True, seg_end = False, x_vecs = [[10]],
          x_dot_vecs = [[0]], t_vec = [1], cur_beta = [], cur_gamma = [], cur_k = []\<rparr>)"
    apply (subst plan_while.simps)
    apply (simp only: c0 rest_body if_True sum.case)
    apply (subst plan_while.simps)
    apply (simp only: c1 if_False)
    done
  then show ?thesis
    by (simp add: generatePlan_def make_plan_def dims_of_def rest_request_def)
qed







text \<open>In exact arithmetic with \<open>total_dt > 0\<close> the \<open>j\<close>-th time stamp of a returned plan is
  \<open>(j + 1) * total_dt\<close> and the time stamps increase strictly.\<close>

lemma plan_times_exact:
  assumes "generatePlan exact_libm evalAt p = Some (Inr (plan, ag))" "0 < total_dt p"
  shows "times plan = map (\<lambda>j. (real j + 1) * total_dt p) [0..<length (points plan)] \<and>
     length (times plan) = length (points plan) \<and> sorted_wrt (<) (times plan)"
proof -
  from assms(1) obtain r where r: "plan_reach exact_libm evalAt p r" "plan = make_plan p r"
    by (rule generatePlan_Some)
  have t: "times plan = map (\<lambda>j. (real j + 1) * total_dt p) [0..<length (points plan)]"
    using reach_time[OF r(1)] r(2) by (simp add: make_plan_def)
  have "sorted_wrt (<) (map (\<lambda>j. (real j + 1) * total_dt p) [0..<length (points plan)])"
    using assms(2) by (simp add: sorted_wrt_map sorted_wrt_iff_nth_less)
  with t show ?thesis by simp
qed



lemma push_body:
  "plan_body exact_libm (const_approx 3) push_request (plan_init push_request) =
     Inr \<lparr>cur_t = 1, n_pts = 1, at_goal = False, seg_end = False, x_vecs = [[1]],
          x_dot_vecs = [[59 / 4]], t_vec = [1], cur_beta = [], cur_gamma = [], cur_k = []\<rparr>"
  by (simp add: plan_body_def plan_init_def push_request_def rest_request_def plan_coupling_def
      dims_of_def plan_dim_def plan_start_def substep_def step_dt_def const_approx_def
      goal_check_def calcPhase_start Let_def)

lemma push_coupling:
  "plan_coupling exact_libm push_request (plan_init push_request) = Inr ([0], [], [], [])"
  by (simp add: plan_coupling_def plan_init_def push_request_def rest_request_def dims_of_def)

theorem substep_velocity_update_witness:
  "plan_reach exact_libm (const_approx 3) push_request (plan_init push_request) \<and>
   plan_cond exact_libm push_request (plan_init push_request) \<and>
   plan_body exact_libm (const_approx 3) push_request (plan_init push_request) =
     Inr \<lparr>cur_t = 1, n_pts = 1, at_goal = False, seg_end = False, x_vecs = [[1]],
          x_dot_vecs = [[59 / 4]], t_vec = [1], cur_beta = [], cur_gamma = [], cur_k = []\<rparr> \<and>
   plan_coupling exact_libm push_request (plan_init push_request) = Inr ([0], [], [], []) \<and>
   0 < dims_of push_request \<and>
   v_dot_spec exact_libm (const_approx 3) push_request 0 0 0 0 0 2 = 55 / 2 \<and>
   (case fold (euler_spec exact_libm (const_approx 3) push_request 0 ([0] ! 0)
                 (cur_t (plan_init push_request)))
              [0..<nat (integrate_iter push_request)] (step_start push_request (plan_init push_request) 0)
      of (x', v') \<Rightarrow> (x', v' / tau push_request)) = (1, 59 / 4)"
proof -
  have r: "plan_reach exact_libm (const_approx 3) push_request (plan_init push_request)"
    by (rule reach_init)
  have c: "plan_cond exact_libm push_request (plan_init push_request)"
    by (rule exact_init_cond)
  have d: "0 < dims_of push_request"
    by (simp add: dims_of_def push_request_def rest_request_def)
  have v: "v_dot_spec exact_libm (const_approx 3) push_request 0 0 0 0 0 2 = 55 / 2"
    by (simp add: v_dot_spec_def f_eval_spec_def push_request_def rest_request_def step_dt_def
        const_approx_def calcPhase_start)
  from substep_velocity_update [OF r c push_body push_coupling d] r c push_body push_coupling d v
  show ?thesis by simp
qed

subsection \<open>IEEE arithmetic: rounding\<close>

lemma pow2_powr: "pow2 e = 2 powr (real_of_int e)"
proof (cases "0 \<le> e")
  case True
  then have "2 powr real_of_int e = 2 powr real (nat e)" by simp
  also have "\<dots> = 2 ^ nat e" by (simp add: powr_realpow)
  finally show ?thesis using True by (simp add: pow2_def)
next
  case False
  then have "real_of_int e = - real (nat (- e))" by simp
  then have "2 powr real_of_int e = 1 / 2 powr real (nat (- e))"
    by (simp only: powr_minus_divide)
  also have "\<dots> = 1 / 2 ^ nat (- e)" by (simp add: powr_realpow)
  finally show ?thesis using False by (simp add: pow2_def)
qed

lemma pow2_pos: "0 < pow2 e"
  by (simp add: pow2_powr)

lemma expo_eq:
  assumes "pow2 e \<le> \<bar>x\<bar>" "\<bar>x\<bar> < pow2 (e + 1)" "- 1022 \<le> e"
  shows "expo x = e"
proof -
  have pos: "0 < \<bar>x\<bar>" using assms(1) pow2_pos[of e] by linarith
  have "\<lfloor>log 2 \<bar>x\<bar>\<rfloor> = e"
    using assms(1,2) by (simp add: floor_log_eq_powr_iff[OF pos] pow2_powr)
  with assms(3) show ?thesis by (simp add: expo_def)
qed

lemma rnd_eval:
  assumes "pow2 e \<le> \<bar>x\<bar>" "\<bar>x\<bar> < pow2 (e + 1)" "- 1022 \<le> e"
    and "round_even (x / pow2 (e - 52)) = n"
  shows "rnd x = real_of_int n * pow2 (e - 52)"
proof -
  have "x \<noteq> 0" using assms(1) pow2_pos[of e] by auto
  then show ?thesis
    using expo_eq[OF assms(1,2,3)] assms(4) by (simp add: rnd_def)
qed

lemma overflow_big: "2 ^ 1023 \<le> overflow_threshold"
proof -
  have "(2::real) ^ 970 \<le> 2 ^ 1023" by (rule power_increasing) simp_all
  moreover have "(2::real) ^ 1024 = 2 * 2 ^ 1023" by (simp add: power_Suc[symmetric] del: power_Suc)
  ultimately show ?thesis by (simp add: overflow_threshold_def)
qed

lemma big_bound: "(1048576::real) \<le> 2 ^ 1023"
proof -
  have "(2::real) ^ 20 \<le> 2 ^ 1023" by (rule power_increasing) simp_all
  then show ?thesis by simp
qed

lemma overflow_1024: "1048576 \<le> overflow_threshold"
  using overflow_big big_bound by (rule order_trans[rotated])

lemma to_double_fin:
  assumes "\<bar>x\<bar> < 1048576"
  shows "to_double x = Fin (rnd x)"
proof -
  have "\<bar>x\<bar> < overflow_threshold" using assms overflow_1024 by linarith
  then show ?thesis by (auto simp: to_double_def)
qed

lemma rnd_zero [simp]: "rnd 0 = 0"
  by (simp add: rnd_def)

lemma to_double_zero [simp]: "to_double 0 = Fin 0"
  using to_double_fin[of 0] by simp

lemma rnd_one: "rnd 1 = 1"
  using rnd_eval[where x = 1 and e = 0 and n = "4503599627370496"]
  by (simp add: pow2_def round_even_def)

lemma double_one: "to_double 1 = Fin 1"
  by (simp add: to_double_fin rnd_one)

text \<open>Rounding at most doubles the magnitude, so that a result of moderate magnitude is
  finite.\<close>

lemma round_even_bound: "\<bar>real_of_int (round_even y)\<bar> \<le> 2 * \<bar>y\<bar>"
proof -
  define g where "g = real_of_int \<lfloor>y\<rfloor>"
  have g: "g \<le> y" "y < g + 1" unfolding g_def by linarith+
  have pos: "0 \<le> g" if "0 \<le> y" using that unfolding g_def by simp
  have neg: "g \<le> - 1" if "y < 0"
  proof -
    have "\<lfloor>y\<rfloor> \<le> - 1" using that by (simp add: floor_le_iff)
    then show ?thesis unfolding g_def by (metis of_int_le_iff of_int_minus of_int_1)
  qed
  have r: "real_of_int (round_even y) = (if y - g < 1 / 2 then g
      else if 1 / 2 < y - g then g + 1 else if even \<lfloor>y\<rfloor> then g else g + 1)"
    by (simp add: round_even_def g_def Let_def)
  show ?thesis
  proof (cases "0 \<le> y")
    case True
    from pos[OF True] g True show ?thesis unfolding r by (auto simp: abs_if)
  next
    case False
    then have "y < 0" by simp
    from neg[OF this] g this show ?thesis unfolding r by (auto simp: abs_if)
  qed
qed

lemma rnd_bound: "\<bar>rnd x\<bar> \<le> 2 * \<bar>x\<bar>"
proof (cases "x = 0")
  case True then show ?thesis by (simp add: rnd_def)
next
  case False
  define p where "p = pow2 (expo x - 52)"
  have p: "0 < p" unfolding p_def by (rule pow2_pos)
  have "\<bar>rnd x\<bar> = \<bar>real_of_int (round_even (x / p))\<bar> * p"
    using False p by (simp add: rnd_def p_def abs_mult)
  also have "\<dots> \<le> (2 * \<bar>x / p\<bar>) * p"
    using round_even_bound[of "x / p"] p by (intro mult_right_mono) simp_all
  also have "\<dots> = 2 * \<bar>x\<bar>" using p by (simp add: abs_divide)
  finally show ?thesis .
qed

lemma to_double_Fin:
  assumes "\<bar>x\<bar> < 1048576"
  obtains r where "to_double x = Fin r" "\<bar>r\<bar> \<le> 2 * \<bar>x\<bar>"
  using to_double_fin[OF assms] rnd_bound[of x] by blast

subsection \<open>IEEE arithmetic: a plan of six points\<close>

lemma Fin_le [simp]: "(Fin a \<le> Fin b) = (a \<le> b)"
  by (auto simp: less_eq_double_def)

lemma Fin_zero [simp]: "(0 :: double) = Fin 0"
  by (simp add: zero_double_def)



lemma double_thousand: "to_double (1000) = Fin (1000)"
proof -
  have "rnd (1000) = 1000"
    using rnd_eval[where x = "1000" and e = "9" and n = "8796093022208000"]
    by (simp add: pow2_def round_even_def)
  then show ?thesis by (simp add: to_double_fin)
qed





























subsection \<open>IEEE arithmetic: NaN\<close>

lemma NaN_absorbs [simp]:
  "a + NaN = NaN" "NaN + a = NaN" "a * NaN = NaN" "NaN * a = NaN" "a / NaN = NaN" "NaN / a = NaN"
  "a - NaN = NaN" "NaN - a = NaN" "- NaN = NaN" "\<bar>NaN\<bar> = NaN"
  by (cases a; simp add: minus_double_def)+

lemma NaN_compares [simp]:
  "\<not> a < NaN" "\<not> NaN < a" "\<not> a \<le> NaN" "\<not> NaN \<le> a"
  by (cases a; simp add: less_eq_double_def)+

lemma zero_divisor_phase: "- (y / Fin 0) * Fin 0 = NaN"
  by (cases y) auto

lemma zero_by_zero: "Fin 0 / Fin 0 = NaN"
  by simp

text \<open>A demonstration with a single sample at time zero has \<open>tau = 0\<close>: the phase, the
  domain and the target are NaN, in learnFromDemo as in the formula of the specification.\<close>

lemma learnFromDemo_zero_tau:
  "learnFromDemo double_libm lsq \<lparr>points = [\<lparr>positions = [x], velocities = vs\<rparr>], times = [Fin 0]\<rparr>
     [k] [d] nb =
   Inr [\<lparr>k_gain = k, d_gain = d, weights = lsq nb [NaN] [NaN], f_domain = [NaN],
         f_targets = [NaN]\<rparr>]"
  by (simp add: learnFromDemo_def learn_dim_def demo_init_def demo_target_def calcPhase_def
      zero_divisor_phase zero_by_zero double_libm_def Let_def del: times_double.simps divide_double.simps
      uminus_double.simps)

subsection \<open>IEEE arithmetic: the obstacle coupling\<close>

lemma zero_times: "Fin 0 * y = Fin 0 \<or> Fin 0 * y = NaN"
  by (cases y) auto

lemma double_absorb:
  "z \<in> {Fin 0, NaN} \<Longrightarrow> z * y \<in> {Fin 0, NaN}"
  "a \<in> {Fin 0, NaN} \<Longrightarrow> b \<in> {Fin 0, NaN} \<Longrightarrow> a + b \<in> {Fin 0, NaN}"
  "0 \<in> {Fin 0, NaN}"
  using zero_times[of y] by auto

lemma vscale_absorb:
  assumes "\<And>z y. z \<in> Z \<Longrightarrow> z * y \<in> Z" "a \<in> Z \<times> Z \<times> Z"
  shows "vscale a c \<in> Z \<times> Z \<times> Z"
  using assms by (auto simp: vscale_def)

text \<open>With a zero \<open>gamma\<close>, a last factor \<open>exp (- k * distance)\<close> that has overflowed to
  infinity turns the three coefficients of the term into NaN.\<close>

lemma coupling_term_overflow:
  assumes "fexp lm (- kd * len) = PInf"
  shows "coupling_term lm (Fin 0) R v_e theta b kd len = (NaN, NaN, NaN)"
proof -
  have "vscale (mat_vec (mscale (Fin 0) R) v_e) theta \<in> {Fin 0, NaN} \<times> {Fin 0, NaN} \<times> {Fin 0, NaN}"
    by (rule distance_term_absorb; (erule double_absorb(1) | (erule double_absorb(2), assumption) | simp))
  then have "vscale (vscale (mat_vec (mscale (Fin 0) R) v_e) theta) (fexp lm (- b * theta))
      \<in> {Fin 0, NaN} \<times> {Fin 0, NaN} \<times> {Fin 0, NaN}"
    by (rule vscale_absorb[rotated]) (rule double_absorb)
  then show ?thesis
    unfolding coupling_term_def assms by (auto simp: vscale_def)
qed

lemma rnd_million: "rnd 1000000 = 1000000"
  using rnd_eval[where x = 1000000 and e = 19 and n = "8589934592000000"]
  by (simp add: pow2_def round_even_def)

lemma exp_million: "overflow_threshold \<le> exp 1000000"
proof -
  have "(2::real) \<le> exp 1" using exp_ge_add_one_self[of 1] by simp
  then have "(2::real) ^ 1000000 \<le> exp 1 ^ 1000000" by (rule power_mono) simp
  also have "exp 1 ^ 1000000 = exp (1000000 :: real)"
    using exp_of_nat_mult[of 1000000 "1::real"] by simp
  finally have "(2::real) ^ 1000000 \<le> exp 1000000" .
  moreover have "(2::real) ^ 1024 \<le> 2 ^ 1000000" by (rule power_increasing) simp_all
  moreover have "overflow_threshold \<le> 2 ^ 1024" by (simp add: overflow_threshold_def)
  ultimately show ?thesis by linarith
qed

lemma unit_distance:
  "norm3 double_libm (vsub (Fin 1, Fin 0, Fin 0) (Fin 0, Fin 0, Fin 0)) = Fin 1"
  by (simp add: norm3_def vsub_def dot_def minus_double_def double_libm_def to_double_fin rnd_one)

lemma distance_factor_overflow:
  "fexp double_libm (- Fin (- 1000000) *
     norm3 double_libm (vsub (Fin 1, Fin 0, Fin 0) (Fin 0, Fin 0, Fin 0))) = PInf"
  unfolding unit_distance using exp_million
  by (simp add: double_libm_def to_double_fin rnd_million) (simp add: to_double_def)

lemma apf_overflow_example:
  "artificialPotentialFieldCoupling double_libm [] [Fin 0, Fin 0, Fin 0] [Fin 0, Fin 0, Fin 0]
     [[Fin 1, Fin 0, Fin 0]] [Fin 0] [Fin 0] [Fin (- 1000000)] (Fin 1) (Fin 1) =
   Inr ([NaN, NaN, NaN], [Fin 0], [Fin 0], [Fin (- 1000000)])"
proof -
  have v3: "vec3_of [Fin 0, Fin 0, Fin 0] = Inr (Fin 0, Fin 0, Fin 0)"
    "vec3_of [Fin 1, Fin 0, Fin 0] = Inr (Fin 1, Fin 0, Fin 0)"
    by (simp_all add: vec3_of_def)
  have ct: "coupling_term double_libm (Fin 0) R ve th (Fin 0) (Fin (- 1000000))
      (norm3 double_libm (vsub (Fin 1, Fin 0, Fin 0) (Fin 0, Fin 0, Fin 0))) = (NaN, NaN, NaN)"
    for R ve th
    by (rule coupling_term_overflow[OF distance_factor_overflow])
  show ?thesis
    by (simp add: artificialPotentialFieldCoupling_def v3 Let_def ct)
qed

text \<open>A point obstacle at distance 1 from a position at rest, with \<open>gamma = [0]\<close>,
  \<open>beta = [1]\<close> and \<open>k = [1]\<close>: every factor is finite and the coupling is zero.\<close>

lemma Fin_zero_times [simp]: "Fin 0 * Fin b = Fin 0" "Fin a * Fin 0 = Fin 0"
  by simp_all

lemma coupling_term_finite:
  assumes "fexp lm (- b * Fin t) = Fin e1" "fexp lm (- kd * len) = Fin e2"
  shows "coupling_term lm (Fin 0)
      ((Fin a1, Fin a2, Fin a3), (Fin b1, Fin b2, Fin b3), (Fin c1, Fin c2, Fin c3))
      (Fin v1, Fin v2, Fin v3) (Fin t) b kd len = (Fin 0, Fin 0, Fin 0)"
  unfolding coupling_term_def assms
  by (simp add: mscale_def mat_vec_def dot_def vscale_def)

lemma half_pi_finite: "\<exists>c. to_double (1 / 2) * to_double pi = Fin c"
proof -
  have h: "to_double (1 / 2) = Fin (1 / 2)"
    using rnd_eval[where x = "1 / 2" and e = "- 1" and n = "4503599627370496"]
    by (simp add: to_double_fin pow2_def round_even_def)
  have "\<bar>pi\<bar> < 1048576" using pi_less_4 pi_gt_zero by linarith
  then obtain r where r: "to_double pi = Fin r" "\<bar>r\<bar> \<le> 2 * \<bar>pi\<bar>"
    by (rule to_double_Fin)
  have "\<bar>1 / 2 * r\<bar> < 1048576" using r(2) pi_less_4 pi_gt_zero by (simp add: abs_mult)
  then show ?thesis
    by (simp add: h r to_double_fin)
qed

lemma rest_rotation:
  "rotation_about double_libm (Fin 1, Fin 0, Fin 0) (Fin 0, Fin 0, Fin 0) =
     ((Fin 1, Fin 0, Fin 0), (Fin 0, Fin 1, Fin 0), (Fin 0, Fin 0, Fin 1))"
proof -
  obtain c where c: "to_double (1 / 2) * to_double pi = Fin c"
    using half_pi_finite by blast
  show ?thesis
    by (simp add: rotation_about_def cross_def norm3_def dot_def normalized_def
        toRotationMatrix_def Let_def double_libm_def double_one minus_double_def c
        del: times_double.simps)
qed

lemma double_epsilon_value:
  "epsilon double_libm = Fin (7737125245533627 / 77371252455336267181195264)"
proof -
  have "rnd (1 / 10 ^ 10) = 7737125245533627 / 77371252455336267181195264"
    using rnd_eval[where x = "1 / 10 ^ 10" and e = "- 34" and n = "7737125245533627"]
    by (simp add: pow2_def round_even_def)
  then show ?thesis
    by (simp add: epsilon_def double_libm_def to_double_fin)
qed

lemma double_epsilon_kept:
  "Fin 0 + Fin (7737125245533627 / 77371252455336267181195264)
     = Fin (7737125245533627 / 77371252455336267181195264)"
proof -
  have "rnd (7737125245533627 / 77371252455336267181195264)
      = 7737125245533627 / 77371252455336267181195264"
    using rnd_eval[where x = "7737125245533627 / 77371252455336267181195264" and e = "- 34"
        and n = "7737125245533627"]
    by (simp add: pow2_def round_even_def)
  then show ?thesis by (simp add: to_double_fin)
qed

lemma small_sums: "Fin 0 + Fin 0 = Fin 0" "Fin 1 + Fin 0 = Fin 1"
  by (simp_all add: double_one)

lemma rest_angle:
  "\<exists>t. angle_to double_libm (Fin 1, Fin 0, Fin 0) (Fin 0, Fin 0, Fin 0) = Fin t \<and> \<bar>t\<bar> \<le> 4"
proof -
  have "\<bar>pi / 2\<bar> < 1048576" using pi_less_4 pi_gt_zero by simp
  then obtain t where t: "to_double (pi / 2) = Fin t" "\<bar>t\<bar> \<le> 2 * \<bar>pi / 2\<bar>"
    by (rule to_double_Fin)
  have "\<bar>t\<bar> \<le> 4" using t(2) pi_less_4 pi_gt_zero by simp
  moreover have "angle_to double_libm (Fin 1, Fin 0, Fin 0) (Fin 0, Fin 0, Fin 0) = Fin t"
    unfolding angle_to_def double_epsilon_value
    by (simp add: norm3_def dot_def double_libm_def double_one double_epsilon_kept small_sums t
        del: plus_double.simps)
  ultimately show ?thesis by blast
qed

lemma exp_finite:
  assumes "\<bar>u\<bar> \<le> 8"
  shows "\<exists>e. double_exp (Fin u) = Fin e"
proof -
  have "exp u \<le> exp 8" using assms by simp
  also have "exp (8::real) = exp 1 ^ 8" using exp_of_nat_mult[of 8 "1::real"] by simp
  also have "\<dots> \<le> 3 ^ 8" using exp_le by (intro power_mono) simp_all
  finally have "exp u \<le> 6561" by simp
  then have "\<bar>exp u\<bar> < 1048576" by simp
  then show ?thesis by (simp add: to_double_fin)
qed

lemma Fin_times_finite:
  assumes "\<bar>a * b\<bar> \<le> 4"
  shows "\<exists>u. Fin a * Fin b = Fin u \<and> \<bar>u\<bar> \<le> 8"
proof -
  have "\<bar>a * b\<bar> < 1048576" using assms by simp
  then obtain r where "to_double (a * b) = Fin r" "\<bar>r\<bar> \<le> 2 * \<bar>a * b\<bar>"
    by (rule to_double_Fin)
  with assms show ?thesis by auto
qed

lemma apf_rest_example:
  "artificialPotentialFieldCoupling double_libm [] [Fin 0, Fin 0, Fin 0] [Fin 0, Fin 0, Fin 0]
     [[Fin 1, Fin 0, Fin 0]] [Fin 1] [Fin 0] [Fin 1] (Fin 1) (Fin 1) =
   Inr ([Fin 0, Fin 0, Fin 0], [Fin 1], [Fin 0], [Fin 1])"
proof -
  have v3: "vec3_of [Fin 0, Fin 0, Fin 0] = Inr (Fin 0, Fin 0, Fin 0)"
    "vec3_of [Fin 1, Fin 0, Fin 0] = Inr (Fin 1, Fin 0, Fin 0)"
    by (simp_all add: vec3_of_def)
  have od: "vsub (Fin 1, Fin 0, Fin 0) (Fin 0, Fin 0, Fin 0) = (Fin 1, Fin 0, Fin 0)"
    by (simp add: vsub_def minus_double_def double_one)
  obtain t where t: "angle_to double_libm (Fin 1, Fin 0, Fin 0) (Fin 0, Fin 0, Fin 0) = Fin t"
    "\<bar>t\<bar> \<le> 4"
    using rest_angle by blast
  have len: "norm3 double_libm (Fin 1, Fin 0, Fin 0) = Fin 1"
    by (simp add: norm3_def dot_def double_libm_def double_one)
  obtain u where u: "- Fin 1 * Fin t = Fin u" "\<bar>u\<bar> \<le> 8"
    using Fin_times_finite[of "- 1" t] t(2) by auto
  obtain w where w: "- Fin 1 * Fin 1 = Fin w" "\<bar>w\<bar> \<le> 8"
    using Fin_times_finite[of "- 1" 1] by auto
  obtain e1 where e1: "fexp double_libm (- Fin 1 * Fin t) = Fin e1"
    unfolding u using exp_finite[OF u(2)] by (auto simp: double_libm_def)
  obtain e2 where e2: "fexp double_libm (- Fin 1 * Fin 1) = Fin e2"
    unfolding w using exp_finite[OF w(2)] by (auto simp: double_libm_def)
  have ct: "coupling_term double_libm (Fin 0)
      ((Fin 1, Fin 0, Fin 0), (Fin 0, Fin 1, Fin 0), (Fin 0, Fin 0, Fin 1))
      (Fin 0, Fin 0, Fin 0) (Fin t) (Fin 1) (Fin 1) (Fin 1) = (Fin 0, Fin 0, Fin 0)"
    by (rule coupling_term_finite[OF e1 e2])
  show ?thesis
    unfolding artificialPotentialFieldCoupling_def Let_def
    by (simp add: v3 od rest_rotation t(1) len ct
        del: times_double.simps uminus_double.simps)
qed

text \<open>
  Claim C6, as stated, fails in the arithmetic of the program: with \<open>gamma = [0]\<close> and
  \<open>k = [-1000000]\<close>, a point obstacle at distance 1 from the position makes
  \<open>exp (- k * distance)\<close> overflow to infinity, and zero times infinity is NaN: the three
  coefficients of the coupling are NaN, not zero.
\<close>

theorem zero_gamma_coupling_counterexample:
  "list_all (\<lambda>g. g = Fin 0) [Fin 0] \<and>
   artificialPotentialFieldCoupling double_libm [] [Fin 0, Fin 0, Fin 0] [Fin 0, Fin 0, Fin 0]
     [[Fin 1, Fin 0, Fin 0]] [Fin 0] [Fin 0] [Fin (- 1000000)] (Fin 1) (Fin 1) =
   Inr ([NaN, NaN, NaN], [Fin 0], [Fin 0], [Fin (- 1000000)]) \<and>
   [NaN, NaN, NaN] \<noteq> [] @ [Fin 0, Fin 0, Fin 0]"
  using apf_overflow_example by simp

text \<open>In exact arithmetic the claim holds: every term of the coupling is a multiple of a
  coefficient of \<open>gamma\<close>, and the padded \<open>gamma\<close> is still zero.\<close>

lemma zero_gamma_coupling_exact:
  assumes "\<forall>g\<in>set gamma'. g = (0::real)"
    and "artificialPotentialFieldCoupling lm apf_ct x v ob beta' gamma' k' m' n' = Inr (ct, b, g, kc)"
  shows "ct = apf_ct @ [0, 0, 0]"
proof -
  have "set gamma' \<subseteq> {0}" using assms(1) by auto
  from apf_absorb[where Z = "{0}", OF _ _ _ this assms(2)] show ?thesis by auto
qed

text \<open>
  Claim C6, amended. For every position, velocity and obstacle geometry (point or vertex
  list), if all entries of \<open>gamma\<close> are zero then, whenever the call returns, each of the
  three coefficients of the coupling acceleration that artificialPotentialFieldCoupling
  appends is zero or NaN, whatever \<open>beta\<close>, \<open>k\<close>, the scale factors and the shape of the
  obstacle are, and whatever the functions of the mathematical library return.
\<close>

theorem zero_gamma_coupling:
  assumes "\<forall>g\<in>set gamma'. g = Fin 0"
    and "artificialPotentialFieldCoupling lm apf_ct x v ob beta' gamma' k' m' n' = Inr (ct, b, g, kc)"
  shows "\<exists>c1 c2 c3. ct = apf_ct @ [c1, c2, c3] \<and> (c1 = Fin 0 \<or> c1 = NaN) \<and>
     (c2 = Fin 0 \<or> c2 = NaN) \<and> (c3 = Fin 0 \<or> c3 = NaN)"
proof -
  have "set gamma' \<subseteq> {Fin 0, NaN}" using assms(1) by auto
  from apf_absorb[where Z = "{Fin 0, NaN}", OF double_absorb this assms(2)] show ?thesis
    by simp
qed

theorem zero_gamma_coupling_witness:
  "list_all (\<lambda>g. g = Fin 0) [Fin 0] \<and>
   artificialPotentialFieldCoupling double_libm [] [Fin 0, Fin 0, Fin 0] [Fin 0, Fin 0, Fin 0]
     [[Fin 1, Fin 0, Fin 0]] [Fin 1] [Fin 0] [Fin 1] (Fin 1) (Fin 1) =
   Inr ([Fin 0, Fin 0, Fin 0], [Fin 1], [Fin 0], [Fin 1]) \<and>
   (\<exists>ct b g kc.
      artificialPotentialFieldCoupling double_libm [] [Fin 0, Fin 0, Fin 0] [Fin 1, Fin 0, Fin 0]
        [[Fin 1, Fin 1, Fin 0], [Fin 2, Fin 1, Fin 0]] [Fin 1] [Fin 0] [Fin 1] (Fin 1) (Fin 1)
        = Inr (ct, b, g, kc) \<and>
      (\<exists>c1 c2 c3. ct = [] @ [c1, c2, c3] \<and> (c1 = Fin 0 \<or> c1 = NaN) \<and>
         (c2 = Fin 0 \<or> c2 = NaN) \<and> (c3 = Fin 0 \<or> c3 = NaN)))"
proof -
  have z: "\<forall>g\<in>set [Fin 0]. g = Fin 0" by simp
  have "3 \<le> length [Fin 0, Fin 0, Fin 0]" "3 \<le> length [Fin 1, Fin 0, Fin 0]"
    "[Fin 1] \<noteq> []" "[Fin 0] \<noteq> []" "[Fin 1] \<noteq> []"
    "wf_obstacle [[Fin 1, Fin 1, Fin 0], [Fin 2, Fin 1, Fin 0]]"
    by (simp_all add: wf_obstacle_def)
  from apf_in_bounds[OF this, of double_libm "[]" "Fin 1" "Fin 1"] obtain ct b g kc where
    r: "artificialPotentialFieldCoupling double_libm [] [Fin 0, Fin 0, Fin 0] [Fin 1, Fin 0, Fin 0]
        [[Fin 1, Fin 1, Fin 0], [Fin 2, Fin 1, Fin 0]] [Fin 1] [Fin 0] [Fin 1] (Fin 1) (Fin 1)
        = Inr (ct, b, g, kc)"
    by auto
  from zero_gamma_coupling [OF z r] zero_gamma_coupling [OF z apf_rest_example] r apf_rest_example
  show ?thesis by auto
qed

subsection \<open>IEEE arithmetic: the goal test\<close>

text \<open>The goal test \<^verbatim>\<open>fabs(x - goal) > goal_thresh\<close> is false of a position that is NaN, so
  such a position never clears \<open>at_goal\<close>.\<close>

lemma goal_check_nan:
  assumes "i < length (goal_thresh p)" "i < length xs" "n' - 1 < length (xs ! i)"
    "i < length (goal p)" "xs ! i ! (n' - 1) = NaN"
  shows "goal_check p xs n' i ag = Inr ag"
  using assms by (simp add: goal_check_def minus_double_def)

lemma zero_tau_cond: "plan_cond double_libm zero_tau_request (plan_init zero_tau_request)"
  by (rule init_cond) (simp add: double_libm_def double_thousand)

lemma zero_tau_body:
  "plan_body double_libm evalAt zero_tau_request (plan_init zero_tau_request) =
     Inr \<lparr>cur_t = Fin 1, n_pts = 1, at_goal = True, seg_end = False, x_vecs = [[NaN]],
          x_dot_vecs = [[NaN]], t_vec = [Fin 1], cur_beta = [], cur_gamma = [], cur_k = []\<rparr>"
proof -
  have ph: "calcPhase double_libm (Fin 0) (Fin 0) = NaN"
    by (simp add: calcPhase_def zero_divisor_phase double_libm_def
        del: times_double.simps divide_double.simps uminus_double.simps)
  show ?thesis
    by (simp add: plan_body_def plan_init_def zero_tau_request_def plan_coupling_def dims_of_def
        plan_dim_def plan_start_def substep_def step_dt_def goal_check_def
        Let_def double_libm_def double_one ph[unfolded double_libm_def] minus_double_def)
qed

lemma zero_tau_stop:
  "\<not> plan_cond double_libm zero_tau_request
     \<lparr>cur_t = Fin 1, n_pts = 1, at_goal = True, seg_end = False, x_vecs = [[NaN]],
      x_dot_vecs = [[NaN]], t_vec = [Fin 1], cur_beta = [], cur_gamma = [], cur_k = []\<rparr>"
  by (simp add: plan_cond_def zero_tau_request_def double_one)

text \<open>
  Claim C3 fails in the arithmetic of the program. For the request \<open>zero_tau_request\<close>
  (position 0, goal 10, threshold 1, \<open>tau = 0\<close>) and every approximator, the first step
  divides by \<open>tau\<close>: the planned position is NaN. The elapsed time has reached \<open>tau\<close>, so
  \<open>at_goal\<close> is set, and the test \<^verbatim>\<open>fabs(x - goal) > goal_thresh\<close> that should clear it is false
  of NaN: generatePlan returns \<open>at_goal = true\<close> with a last position that is not within the
  threshold of the goal.
\<close>

theorem at_goal_nan:
  "generatePlan double_libm evalAt zero_tau_request =
     Some (Inr (\<lparr>points = [\<lparr>positions = [NaN], velocities = [NaN]\<rparr>], times = [Fin 1]\<rparr>, True)) \<and>
   0 < goal_thresh zero_tau_request ! 0 \<and>
   \<not> \<bar>NaN - goal zero_tau_request ! 0\<bar> \<le> goal_thresh zero_tau_request ! 0"
proof -
  have "plan_while double_libm evalAt zero_tau_request (plan_init zero_tau_request) =
     Some (Inr \<lparr>cur_t = Fin 1, n_pts = 1, at_goal = True, seg_end = False, x_vecs = [[NaN]],
          x_dot_vecs = [[NaN]], t_vec = [Fin 1], cur_beta = [], cur_gamma = [], cur_k = []\<rparr>)"
    apply (subst plan_while.simps)
    apply (simp only: zero_tau_cond zero_tau_body if_True sum.case)
    apply (subst plan_while.simps)
    apply (simp only: zero_tau_stop if_False)
    done
  then have "generatePlan double_libm evalAt zero_tau_request =
     Some (Inr (\<lparr>points = [\<lparr>positions = [NaN], velocities = [NaN]\<rparr>], times = [Fin 1]\<rparr>, True))"
    by (simp add: generatePlan_def make_plan_def dims_of_def zero_tau_request_def)
  then show ?thesis
    by (simp add: zero_tau_request_def)
qed

end
